theory Spec2Isabelle
  imports Complex_Main "HOL-Library.Sublist" "HOL-Library.Log_Nat"
begin

section \<open>JavaScript values and the operations of the runtime the matcher uses\<close>

text \<open>
  The matcher of \<^verbatim>\<open>MobileActions.ts\<close> works on what \<^verbatim>\<open>JSON.parse\<close> returns, typed
  \<^verbatim>\<open>any\<close>. A value is \<^verbatim>\<open>undefined\<close>, \<^verbatim>\<open>null\<close>, a boolean, a number, a string, an
  array or an object. Numbers are the runtime's doubles: the code never computes with
  them, it only asks for \<^verbatim>\<open>String(n)\<close>, so the number type is a parameter \<open>'n\<close> and
  \<^verbatim>\<open>Number::toString\<close> is the parameter \<open>ns\<close> of every function that stringifies. An
  object is the list of its own enumerable properties in the order \<^verbatim>\<open>Object.entries\<close>
  lists them, and its prototype is \<^verbatim>\<open>Object.prototype\<close>, as for every object that
  \<^verbatim>\<open>JSON.parse\<close> returns. A string is a list of code units.

  A property read on such an object can also return what the object inherits: one of the
  built-in functions of \<^verbatim>\<open>Object.prototype\<close>, or \<^verbatim>\<open>Object.prototype\<close> itself under
  \<^verbatim>\<open>__proto__\<close>. So there are two more values: \<open>JFun t\<close>, a built-in function whose
  \<^verbatim>\<open>String\<close> is \<open>t\<close>, and \<open>JProto\<close>, the object \<^verbatim>\<open>Object.prototype\<close>.
\<close>

datatype 'n jsval =
    JUndefined
  | JNull
  | JBool bool
  | JNum 'n
  | JStr string
  | JArr "'n jsval list"
  | JObj "(string \<times> 'n jsval) list"
  | JFun string
  | JProto

text \<open>
  The exceptions of the runtime that the matcher could meet: a \<^verbatim>\<open>TypeError\<close> from an
  operation on the wrong receiver, and the \<^verbatim>\<open>RangeError\<close> of a call that finds the call
  stack full.
\<close>

datatype error = TypeError | RangeError

fun typeof :: "'n jsval \<Rightarrow> string" where
  "typeof JUndefined = ''undefined''"
| "typeof JNull = ''object''"
| "typeof (JBool b) = ''boolean''"
| "typeof (JNum n) = ''number''"
| "typeof (JStr s) = ''string''"
| "typeof (JArr xs) = ''object''"
| "typeof (JObj kvs) = ''object''"
| "typeof (JFun t) = ''function''"
| "typeof JProto = ''object''"

fun isArray :: "'n jsval \<Rightarrow> bool" where
  "isArray (JArr xs) = True"
| "isArray _ = False"

text \<open>
  Truthiness (\<^verbatim>\<open>!v\<close>, \<^verbatim>\<open>v && ...\<close>). A number is falsy when it is \<open>0\<close>, \<open>-0\<close> or \<open>NaN\<close>,
  which are the numbers whose \<^verbatim>\<open>String\<close> is \<^verbatim>\<open>"0"\<close> or \<^verbatim>\<open>"NaN"\<close>.
\<close>

fun truthy :: "('n \<Rightarrow> string) \<Rightarrow> 'n jsval \<Rightarrow> bool" where
  "truthy ns JUndefined = False"
| "truthy ns JNull = False"
| "truthy ns (JBool b) = b"
| "truthy ns (JNum n) = (ns n \<noteq> ''0'' \<and> ns n \<noteq> ''NaN'')"
| "truthy ns (JStr s) = (s \<noteq> '''')"
| "truthy ns (JArr xs) = True"
| "truthy ns (JObj kvs) = True"
| "truthy ns (JFun t) = True"
| "truthy ns JProto = True"

text \<open>
  \<^verbatim>\<open>String(v)\<close> on what \<^verbatim>\<open>isPrimitive(v)\<close> accepts, which is every value whose
  \<^verbatim>\<open>typeof\<close> is not \<^verbatim>\<open>"object"\<close>, a function among them, and \<^verbatim>\<open>null\<close>. The matcher
  applies it under that guard only, and the model says nothing of it elsewhere.
\<close>

fun js_String :: "('n \<Rightarrow> string) \<Rightarrow> 'n jsval \<Rightarrow> string" where
  "js_String ns JUndefined = ''undefined''"
| "js_String ns JNull = ''null''"
| "js_String ns (JBool b) = (if b then ''true'' else ''false'')"
| "js_String ns (JNum n) = ns n"
| "js_String ns (JStr s) = s"
| "js_String ns (JFun t) = t"

text \<open>The string a value of type \<^verbatim>\<open>"string"\<close> holds.\<close>

fun the_string :: "'n jsval \<Rightarrow> string" where
  "the_string (JStr s) = s"

text \<open>The decimal numeral of an array index, as \<^verbatim>\<open>Object.entries\<close> names it.\<close>

function digits :: "nat \<Rightarrow> string" where
  "digits n =
     (if n < 10 then [''0123456789'' ! n]
      else digits (n div 10) @ [''0123456789'' ! (n mod 10)])"
  by pat_completeness auto
termination
  by (relation "measure id") auto

declare digits.simps [simp del]

text \<open>
  The own enumerable properties of a value: the entries of an object, the elements of an
  array under their indices, the code units of a string under theirs. The properties of
  \<^verbatim>\<open>Object.prototype\<close> and of a function are not enumerable.
\<close>

fun own_props :: "'n jsval \<Rightarrow> (string \<times> 'n jsval) list" where
  "own_props (JObj kvs) = kvs"
| "own_props (JArr xs) = zip (map digits [0..<length xs]) xs"
| "own_props (JStr s) = zip (map digits [0..<length s]) (map (\<lambda>c. JStr [c]) s)"
| "own_props _ = []"

text \<open>
  The properties of \<^verbatim>\<open>Object.prototype\<close>, read on behalf of a receiver: the accessor
  \<^verbatim>\<open>__proto__\<close> gives the prototype of the receiver, which is \<^verbatim>\<open>Object.prototype\<close> for an
  object and \<^verbatim>\<open>null\<close> for \<^verbatim>\<open>Object.prototype\<close> itself; \<^verbatim>\<open>constructor\<close> is the function
  \<^verbatim>\<open>Object\<close>; the ten others are functions under their own names. \<^verbatim>\<open>String\<close> of a
  built-in function is the text \<^verbatim>\<open>function name() { [native code] }\<close>.
\<close>

definition native :: "string \<Rightarrow> string" where
  "native name = ''function '' @ name @ ''() { [native code] }''"

definition Object_prototype_methods :: "string list" where
  "Object_prototype_methods =
     [''__defineGetter__'', ''__defineSetter__'', ''hasOwnProperty'', ''__lookupGetter__'',
      ''__lookupSetter__'', ''isPrototypeOf'', ''propertyIsEnumerable'', ''toString'',
      ''valueOf'', ''toLocaleString'']"

definition Object_prototype :: "'n jsval \<Rightarrow> string \<Rightarrow> 'n jsval option" where
  "Object_prototype receiver k =
     (if k = ''__proto__'' then Some (if receiver = JProto then JNull else JProto)
      else if k = ''constructor'' then Some (JFun (native ''Object''))
      else if k \<in> set Object_prototype_methods then Some (JFun (native k))
      else None)"

text \<open>
  The property \<open>k\<close> of a value, own or inherited. An object has its own properties and
  those of \<^verbatim>\<open>Object.prototype\<close>. Of an array, a string and a function only the own
  enumerable properties are modelled: the matcher reads a property, or asks \<^verbatim>\<open>in\<close>, only
  of a value that passed \<^verbatim>\<open>typeof v === "object"\<close> and is not \<^verbatim>\<open>null\<close>, and of an array
  only under \<^verbatim>\<open>body\<close>, \<^verbatim>\<open>event\<close> and \<^verbatim>\<open>data\<close>, which no array has.
\<close>

fun lookup :: "'n jsval \<Rightarrow> string \<Rightarrow> 'n jsval option" where
  "lookup (JObj kvs) k =
     (case map_of kvs k of Some x \<Rightarrow> Some x | None \<Rightarrow> Object_prototype (JObj kvs) k)"
| "lookup JProto k = Object_prototype JProto k"
| "lookup v k = map_of (own_props v) k"

text \<open>
  The three operations that throw a \<^verbatim>\<open>TypeError\<close> on the wrong receiver:
  \<^verbatim>\<open>Object.entries(v)\<close> and \<^verbatim>\<open>v[k]\<close> on \<^verbatim>\<open>undefined\<close> and \<^verbatim>\<open>null\<close>, and
  \<^verbatim>\<open>k in v\<close> on anything that is not an object or a function. A missing property reads
  as \<^verbatim>\<open>undefined\<close>.
\<close>

definition Object_entries :: "'n jsval \<Rightarrow> error + (string \<times> 'n jsval) list" where
  "Object_entries v =
     (if v = JUndefined \<or> v = JNull then Inl TypeError else Inr (own_props v))"

definition js_get :: "'n jsval \<Rightarrow> string \<Rightarrow> error + 'n jsval" where
  "js_get v k =
     (if v = JUndefined \<or> v = JNull then Inl TypeError
      else Inr (case lookup v k of Some x \<Rightarrow> x | None \<Rightarrow> JUndefined))"

definition js_in :: "string \<Rightarrow> 'n jsval \<Rightarrow> error + bool" where
  "js_in k v =
     (if (typeof v = ''object'' \<and> v \<noteq> JNull) \<or> typeof v = ''function''
      then Inr (lookup v k \<noteq> None)
      else Inl TypeError)"

text \<open>
  \<^verbatim>\<open>Array.prototype.every\<close> and \<^verbatim>\<open>some\<close>: the callback runs on the elements in order
  and the loop stops at the first element that decides the result, or at the first
  exception. Called on a value that is not an array, they are a \<^verbatim>\<open>TypeError\<close>.
\<close>

fun every :: "('a \<Rightarrow> error + bool) \<Rightarrow> 'a list \<Rightarrow> error + bool" where
  "every f [] = Inr True"
| "every f (x # xs) =
     (case f x of Inl e \<Rightarrow> Inl e | Inr b \<Rightarrow> if b then every f xs else Inr False)"

fun some :: "('a \<Rightarrow> error + bool) \<Rightarrow> 'a list \<Rightarrow> error + bool" where
  "some f [] = Inr False"
| "some f (x # xs) =
     (case f x of Inl e \<Rightarrow> Inl e | Inr b \<Rightarrow> if b then Inr True else some f xs)"

definition js_every :: "('n jsval \<Rightarrow> error + bool) \<Rightarrow> 'n jsval \<Rightarrow> error + bool" where
  "js_every f v = (case v of JArr xs \<Rightarrow> every f xs | _ \<Rightarrow> Inl TypeError)"

definition js_some :: "('n jsval \<Rightarrow> error + bool) \<Rightarrow> 'n jsval \<Rightarrow> error + bool" where
  "js_some f v = (case v of JArr xs \<Rightarrow> some f xs | _ \<Rightarrow> Inl TypeError)"

text \<open>\<^verbatim>\<open>hay.includes(needle)\<close> and \<^verbatim>\<open>s.startsWith(p)\<close>.\<close>

fun js_includes :: "string \<Rightarrow> string \<Rightarrow> bool" where
  "js_includes [] needle = (needle = [])"
| "js_includes (c # cs) needle = (prefix needle (c # cs) \<or> js_includes cs needle)"

definition startsWith :: "string \<Rightarrow> string \<Rightarrow> bool" where
  "startsWith s p = prefix p s"

subsection \<open>\<^verbatim>\<open>JSON.parse\<close>\<close>

text \<open>
  \<^verbatim>\<open>JSON.parse\<close> is the runtime's and a parameter here. \<open>None\<close> is its
  \<^verbatim>\<open>SyntaxError\<close>. All that is assumed of it is that a value is not larger than the text
  it was read from: every node and every code unit of a string value takes at least one
  character of the text. The size below counts just those; a string value read from a
  text is then shorter than the text, which is why the matcher's re-parsing of strings
  comes to an end.
\<close>

fun jsize :: "'n jsval \<Rightarrow> nat" where
  "jsize JUndefined = 1"
| "jsize JNull = 1"
| "jsize (JBool b) = 1"
| "jsize (JNum n) = 1"
| "jsize (JStr s) = Suc (length s)"
| "jsize (JArr xs) = Suc (sum_list (map jsize xs))"
| "jsize (JObj kvs) = Suc (sum_list (map (\<lambda>kv. jsize (snd kv)) kvs))"
| "jsize (JFun t) = 1"
| "jsize JProto = 1"

typedef 'n json_parser =
  "{p :: string \<Rightarrow> 'n jsval option. \<forall>s v. p s = Some v \<longrightarrow> jsize v \<le> length s}"
  by (rule exI[of _ "\<lambda>_. None"]) simp

definition JSON_parse :: "'n json_parser \<Rightarrow> string \<Rightarrow> 'n jsval option" where
  "JSON_parse P = Rep_json_parser P"

text \<open>
  \<^verbatim>\<open>function tryParseJSON(s) { try { return JSON.parse(s); } catch { return null; } }\<close>
\<close>

definition tryParseJSON :: "'n json_parser \<Rightarrow> string \<Rightarrow> 'n jsval" where
  "tryParseJSON P s = (case JSON_parse P s of Some v \<Rightarrow> v | None \<Rightarrow> JNull)"

text \<open>
  \<^verbatim>\<open>function isPrimitive(v) { return v === null || typeof v !== "object"; }\<close>
\<close>

definition isPrimitive :: "'n jsval \<Rightarrow> bool" where
  "isPrimitive v = (v = JNull \<or> typeof v \<noteq> ''object'')"

section \<open>The JSON subset matcher\<close>

text \<open>
  The three functions of the matcher come twice. First as the result that a call gives
  when the call stack has room for all the calls it makes, which is what the source
  text alone determines; then, in a subsection of its own, on a call stack that is bounded,
  where a call can also end in the \<^verbatim>\<open>RangeError\<close> of the runtime. The second agrees with
  the first wherever it does not throw.
\<close>

lemma every_cong [fundef_cong]:
  "xs = ys \<Longrightarrow> (\<And>x. x \<in> set ys \<Longrightarrow> f x = g x) \<Longrightarrow> every f xs = every g ys"
  by (induction ys arbitrary: xs) (auto split: sum.splits)

lemma some_cong [fundef_cong]:
  "xs = ys \<Longrightarrow> (\<And>x. x \<in> set ys \<Longrightarrow> f x = g x) \<Longrightarrow> some f xs = some g ys"
  by (induction ys arbitrary: xs) (auto split: sum.splits)

lemma js_every_cong [fundef_cong]:
  "v = w \<Longrightarrow> (\<And>xs x. w = JArr xs \<Longrightarrow> x \<in> set xs \<Longrightarrow> f x = g x) \<Longrightarrow>
   js_every f v = js_every g w"
  unfolding js_every_def by (auto split: jsval.splits intro: every_cong)

lemma js_some_cong [fundef_cong]:
  "v = w \<Longrightarrow> (\<And>xs x. w = JArr xs \<Longrightarrow> x \<in> set xs \<Longrightarrow> f x = g x) \<Longrightarrow>
   js_some f v = js_some g w"
  unfolding js_some_def by (auto split: jsval.splits intro: some_cong)

lemma jsize_elem: "x \<in> set xs \<Longrightarrow> jsize x < Suc (sum_list (map jsize xs))"
  by (induction xs) auto

lemma jsize_entry:
  "(k, v) \<in> set kvs \<Longrightarrow> jsize v < Suc (sum_list (map (\<lambda>kv. jsize (snd kv)) kvs))"
  by (induction kvs) auto

lemma typeof_string: "typeof v = ''string'' \<Longrightarrow> \<exists>s. v = JStr s"
  by (cases v) auto


lemma jsize_own_prop:
  "truthy ns v \<Longrightarrow> typeof v = ''object'' \<Longrightarrow> \<not> isArray v \<Longrightarrow> (k, x) \<in> set (own_props v) \<Longrightarrow>
   jsize x < jsize v"
  by (cases v) (auto simp: jsize_entry)

lemma tryParseJSON_smaller:
  "tryParseJSON P s \<noteq> JNull \<Longrightarrow> jsize (tryParseJSON P s) \<le> length s"
proof -
  assume nn: "tryParseJSON P s \<noteq> JNull"
  then obtain v where v: "JSON_parse P s = Some v"
    by (auto simp: tryParseJSON_def split: option.splits)
  have "Rep_json_parser P \<in> {p. \<forall>s v. p s = Some v \<longrightarrow> jsize v \<le> length s}"
    by (rule Rep_json_parser)
  with v have "jsize v \<le> length s"
    by (simp add: JSON_parse_def)
  with v show ?thesis
    by (simp add: tryParseJSON_def)
qed

text \<open>
  \<^verbatim>\<open>matchJsonElement(eventElement, searchElement)\<close>, branch by branch as in the source:
  both primitive; a string candidate that parses (to something other than \<^verbatim>\<open>null\<close>);
  both objects that are not arrays; both arrays; anything else.
\<close>

function matchJsonElement ::
  "'n json_parser \<Rightarrow> ('n \<Rightarrow> string) \<Rightarrow> 'n jsval \<Rightarrow> 'n jsval \<Rightarrow> error + bool" where
  "matchJsonElement P ns eventElement searchElement =
     (if isPrimitive eventElement \<and> isPrimitive searchElement then
        (let ev = js_String ns eventElement; sv = js_String ns searchElement in
         if sv = ''*'' then Inr True
         else if sv = '''' then Inr (ev = '''')
         else if startsWith sv ''~'' then Inr (js_includes ev (drop 1 sv))
         else Inr (ev = sv))
      else if isPrimitive eventElement \<and> typeof eventElement = ''string'' \<and>
              tryParseJSON P (the_string eventElement) \<noteq> JNull then
        matchJsonElement P ns (tryParseJSON P (the_string eventElement)) searchElement
      else if truthy ns eventElement \<and> typeof eventElement = ''object'' \<and>
              \<not> isArray eventElement \<and>
              truthy ns searchElement \<and> typeof searchElement = ''object'' \<and>
              \<not> isArray searchElement then
        (case Object_entries searchElement of
           Inl e \<Rightarrow> Inl e
         | Inr entries \<Rightarrow>
             every (\<lambda>(k, sv).
                 case js_in k eventElement of
                   Inl e \<Rightarrow> Inl e
                 | Inr present \<Rightarrow>
                     if \<not> present then Inr False
                     else (case js_get eventElement k of
                             Inl e \<Rightarrow> Inl e
                           | Inr v \<Rightarrow> matchJsonElement P ns v sv))
               entries)
      else if isArray eventElement \<and> isArray searchElement then
        js_every (\<lambda>se. js_some (\<lambda>ee. matchJsonElement P ns ee se) eventElement) searchElement
      else Inr False)"
  by pat_completeness auto
termination
proof (relation "measures [\<lambda>(P, ns, e, s). jsize s, \<lambda>(P, ns, e, s). jsize e]", goal_cases)
  case 1
  show ?case by simp
next
  case (2 P ns eventElement searchElement)
  then obtain s where s: "eventElement = JStr s"
    using typeof_string by blast
  with 2 have "jsize (tryParseJSON P s) \<le> length s"
    by (simp add: tryParseJSON_smaller)
  with s show ?case by simp
next
  case (3 P ns eventElement searchElement entries x k sv present v)
  then have "(k, sv) \<in> set (own_props searchElement)"
    by (auto simp: Object_entries_def split: if_splits)
  with 3 have "jsize sv < jsize searchElement"
    using jsize_own_prop by blast
  then show ?case by simp
next
  case (4 P ns eventElement searchElement xs se ys ee)
  then show ?case
    by (simp add: jsize_elem)
qed

declare matchJsonElement.simps [simp del]

text \<open>
  \<^verbatim>\<open>findKeyValueInTree(element, key, searchValue)\<close>: through the elements of an array,
  and through the entries of an object, where an entry under \<open>key\<close> whose value matches
  ends the search.
\<close>

function findKeyValueInTree ::
  "'n json_parser \<Rightarrow> ('n \<Rightarrow> string) \<Rightarrow> 'n jsval \<Rightarrow> string \<Rightarrow> 'n jsval \<Rightarrow> error + bool" where
  "findKeyValueInTree P ns element key searchValue =
     (if isArray element then
        js_some (\<lambda>it. findKeyValueInTree P ns it key searchValue) element
      else if truthy ns element \<and> typeof element = ''object'' then
        (case Object_entries element of
           Inl e \<Rightarrow> Inl e
         | Inr entries \<Rightarrow>
             some (\<lambda>(k, v).
                 if k = key then
                   (case matchJsonElement P ns v searchValue of
                      Inl e \<Rightarrow> Inl e
                    | Inr hit \<Rightarrow>
                        if hit then Inr True
                        else findKeyValueInTree P ns v key searchValue)
                 else findKeyValueInTree P ns v key searchValue)
               entries)
      else Inr False)"
  by pat_completeness auto
termination
proof (relation "measure (\<lambda>(P, ns, e, k, s). jsize e)", goal_cases)
  case 1
  show ?case by simp
next
  case (2 P ns element key searchValue xs it)
  then show ?case by (simp add: jsize_elem)
next
  case (3 P ns element key searchValue entries x k v hit)
  then have "(k, v) \<in> set (own_props element)"
    by (auto simp: Object_entries_def split: if_splits)
  with 3 have "jsize v < jsize element"
    using jsize_own_prop by blast
  then show ?case by simp
next
  case (4 P ns element key searchValue entries x k v)
  then have "(k, v) \<in> set (own_props element)"
    by (auto simp: Object_entries_def split: if_splits)
  with 4 have "jsize v < jsize element"
    using jsize_own_prop by blast
  then show ?case by simp
qed

declare findKeyValueInTree.simps [simp del]

text \<open>
  \<^verbatim>\<open>containsJsonData(eventJson, searchJson)\<close>: the event is an envelope with a string
  \<^verbatim>\<open>body\<close>, itself JSON, holding \<^verbatim>\<open>event.data\<close>; every entry of the search object must
  be found somewhere in that data.
\<close>

definition containsJsonData ::
  "'n json_parser \<Rightarrow> ('n \<Rightarrow> string) \<Rightarrow> string \<Rightarrow> string \<Rightarrow> error + bool" where
  "containsJsonData P ns eventJson searchJson =
     (let evDataObj = tryParseJSON P eventJson in
      if \<not> truthy ns evDataObj \<or> typeof evDataObj \<noteq> ''object'' then Inr False
      else case js_get evDataObj ''body'' of
        Inl e \<Rightarrow> Inl e
      | Inr bodyStr \<Rightarrow>
          if typeof bodyStr \<noteq> ''string'' then Inr False
          else let bodyObj = tryParseJSON P (the_string bodyStr) in
            if \<not> truthy ns bodyObj \<or> typeof bodyObj \<noteq> ''object'' then Inr False
            else case js_get bodyObj ''event'' of
              Inl e \<Rightarrow> Inl e
            | Inr ev \<Rightarrow>
                if \<not> truthy ns ev \<or> typeof ev \<noteq> ''object'' then Inr False
                else case js_get ev ''data'' of
                  Inl e \<Rightarrow> Inl e
                | Inr dataElement \<Rightarrow>
                    if dataElement = JUndefined then Inr False
                    else let searchObj = tryParseJSON P searchJson in
                      if \<not> truthy ns searchObj \<or> typeof searchObj \<noteq> ''object'' then Inr False
                      else case Object_entries searchObj of
                        Inl e \<Rightarrow> Inl e
                      | Inr entries \<Rightarrow>
                          every (\<lambda>(key, val). findKeyValueInTree P ns dataElement key val)
                            entries)"

subsection \<open>The matcher on a bounded call stack\<close>







subsection \<open>The envelope of an event\<close>



section \<open>The locator model\<close>

text \<open>
  \<^verbatim>\<open>type Locator = string | { using: string; value: string }\<close>. A \<^verbatim>\<open>PageElement\<close> holds,
  for each platform, a single locator and a list of locators, each of them possibly
  \<^verbatim>\<open>null\<close> (the constructor turns \<^verbatim>\<open>undefined\<close> into \<^verbatim>\<open>null\<close>).
\<close>

datatype Locator = Selector string | Using string string

text \<open>
  Modelled from the spec: the enumeration \<^verbatim>\<open>Platform\<close> of \<^verbatim>\<open>core/platform\<close> is not among
  the sources; the specification and every use of it name two members.
\<close>

datatype Platform = ANDROID | IOS

record PageElement =
  android :: "Locator option"
  ios :: "Locator option"
  androidList :: "Locator list option"
  iosList :: "Locator list option"

text \<open>Truthiness of a locator: a string is falsy when empty, an object never.\<close>

fun truthy_loc :: "Locator \<Rightarrow> bool" where
  "truthy_loc (Selector s) = (s \<noteq> '''')"
| "truthy_loc (Using u v) = True"

text \<open>
  \<^verbatim>\<open>get()\<close> is \<^verbatim>\<open>this.android ?? this.androidList?.[0] ?? null\<close> on Android and the same
  on the iOS fields on iOS; \<^verbatim>\<open>getAll()\<close> is
  \<^verbatim>\<open>this.androidList ?? (this.android ? [this.android] : null)\<close>. The platform is read
  from the configuration at the call, so it is an argument here.
\<close>

definition get :: "Platform \<Rightarrow> PageElement \<Rightarrow> Locator option" where
  "get platform el =
     (if platform = ANDROID then
        (case android el of
           Some l \<Rightarrow> Some l
         | None \<Rightarrow> (case androidList el of Some (l # ls) \<Rightarrow> Some l | _ \<Rightarrow> None))
      else if platform = IOS then
        (case ios el of
           Some l \<Rightarrow> Some l
         | None \<Rightarrow> (case iosList el of Some (l # ls) \<Rightarrow> Some l | _ \<Rightarrow> None))
      else None)"

definition getAll :: "Platform \<Rightarrow> PageElement \<Rightarrow> Locator list option" where
  "getAll platform el =
     (if platform = ANDROID then
        (case androidList el of
           Some ls \<Rightarrow> Some ls
         | None \<Rightarrow>
             (case android el of
                Some l \<Rightarrow> if truthy_loc l then Some [l] else None
              | None \<Rightarrow> None))
      else if platform = IOS then
        (case iosList el of
           Some ls \<Rightarrow> Some ls
         | None \<Rightarrow>
             (case ios el of
                Some l \<Rightarrow> if truthy_loc l then Some [l] else None
              | None \<Rightarrow> None))
      else None)"

text \<open>What a platform has configured, in the words of the specification.\<close>

definition single_query :: "Platform \<Rightarrow> PageElement \<Rightarrow> Locator option" where
  "single_query platform el = (case platform of ANDROID \<Rightarrow> android el | IOS \<Rightarrow> ios el)"

definition query_list :: "Platform \<Rightarrow> PageElement \<Rightarrow> Locator list option" where
  "query_list platform el = (case platform of ANDROID \<Rightarrow> androidList el | IOS \<Rightarrow> iosList el)"

section \<open>What the test actions throw\<close>

text \<open>
  The values thrown inside \<^verbatim>\<open>MobileActions\<close>, one constructor for each message template
  of the source with the values the template interpolates:
  \<^item> \<open>JsError\<close>: an exception of the runtime;
  \<^item> \<open>DriverError\<close>: whatever a call of the automation driver or of the file system
    throws, with its message;
  \<^item> \<open>ElementsNotFound\<close>: \<^verbatim>\<open>"elements not found"\<close>;
  \<^item> \<open>OutOfRange\<close>: the template with \<^verbatim>\<open>${elementNumber}\<close> and \<^verbatim>\<open>${els.length}\<close>, the
    requested ordinal and the number of elements found;
  \<^item> \<open>NotVisible\<close>: the element was found and is not displayed;
  \<^item> \<open>Exhausted\<close>: the final message of \<^verbatim>\<open>waitForElements\<close>, with
    \<^verbatim>\<open>timeoutExpectation\<close>, \<^verbatim>\<open>currentScroll\<close>, the locators that failed, the locators
    that were tried, and the last error caught (its message follows the locators);
  \<^item> \<open>ScrollCapacity\<close>: the template with \<^verbatim>\<open>scrollCapacity=${scrollCapacity}\<close> and the
    range that is allowed;
  \<^item> \<open>EventTimeout\<close>: the two final messages of \<^verbatim>\<open>checkHasEvent\<close>, with the event name,
    the data when there is some, and the timeout.
\<close>

datatype exn =
    JsError error
  | DriverError string
  | ElementsNotFound
  | OutOfRange "int option" nat
  | NotVisible
  | Exhausted real nat "Locator list" "Locator list" "exn option"
  | ScrollCapacity real
  | EventTimeout string "string option" real

section \<open>The event storage\<close>

record EventData =
  uri :: string
  remoteAddress :: "string option"
  headers :: "(string \<times> string list) list"
  query :: "string option"
  body :: string

text \<open>
  An event; \<open>event_num\<close> is the sequence number, an integer by the specification.
\<close>

record Event =
  event_time :: string
  event_num :: int
  name :: string
  data :: "EventData option"

text \<open>
  \<^verbatim>\<open>EventStorageImpl\<close>: the list of events and the set of the numbers already matched.
\<close>

record EventStorage =
  events :: "Event list"
  matchedEvents :: "int set"

definition empty_storage :: EventStorage where
  "empty_storage = \<lparr>events = [], matchedEvents = {}\<rparr>"

text \<open>\<^verbatim>\<open>eventExists\<close> walks the list from its end.\<close>

definition eventExists :: "EventStorage \<Rightarrow> int \<Rightarrow> bool" where
  "eventExists st eventNumber = list_ex (\<lambda>e. event_num e = eventNumber) (rev (events st))"

definition addEvents :: "EventStorage \<Rightarrow> Event list \<Rightarrow> EventStorage" where
  "addEvents st newEvents =
     fold (\<lambda>event st'.
         if \<not> eventExists st' (event_num event) then st'\<lparr>events := events st' @ [event]\<rparr>
         else st')
       newEvents st"

definition markEventAsMatched :: "EventStorage \<Rightarrow> int \<Rightarrow> EventStorage" where
  "markEventAsMatched st eventNum = st\<lparr>matchedEvents := insert eventNum (matchedEvents st)\<rparr>"

definition isEventAlreadyMatched :: "EventStorage \<Rightarrow> int \<Rightarrow> bool" where
  "isEventAlreadyMatched st eventNum = (eventNum \<in> matchedEvents st)"

definition getIndexEvents :: "EventStorage \<Rightarrow> int \<Rightarrow> Event list" where
  "getIndexEvents st index =
     (if index < 0 \<or> index \<ge> int (length (events st)) then []
      else filter (\<lambda>ev. \<not> isEventAlreadyMatched st (event_num ev)) (drop (nat index) (events st)))"

definition getEvents :: "EventStorage \<Rightarrow> Event list" where
  "getEvents st = events st"

definition getLastEvent :: "EventStorage \<Rightarrow> Event option" where
  "getLastEvent st = (if events st = [] then None else Some (last (events st)))"

definition clear :: "EventStorage \<Rightarrow> EventStorage" where
  "clear st = st\<lparr>events := [], matchedEvents := {}\<rparr>"

text \<open>
  The states a storage goes through in a session: it starts empty, and the receiver
  adds batches, the waits mark numbers and \<^verbatim>\<open>setUp\<close> clears it, in any order.
\<close>

inductive reachable :: "EventStorage \<Rightarrow> bool" where
  init: "reachable empty_storage"
| add: "reachable st \<Longrightarrow> reachable (addEvents st newEvents)"
| mark: "reachable st \<Longrightarrow> reachable (markEventAsMatched st eventNum)"
| clear: "reachable st \<Longrightarrow> reachable (clear st)"

section \<open>Waiting for an event\<close>

text \<open>
  What \<^verbatim>\<open>checkHasEvent\<close> takes from outside the program: \<^verbatim>\<open>JSON.parse\<close> and
  \<^verbatim>\<open>String\<close> on numbers for the matcher, \<^verbatim>\<open>JSON.stringify\<close> on the data of an event,
  and the file system: \<^verbatim>\<open>path.resolve\<close>, whether a path is an existing file
  (\<^verbatim>\<open>fs.existsSync(p) && fs.statSync(p).isFile()\<close>) and \<^verbatim>\<open>fs.readFileSync\<close>, which
  may throw.
\<close>

record 'n env =
  parser :: "'n json_parser"
  numstr :: "'n \<Rightarrow> string"
  stringify :: "EventData \<Rightarrow> string"
  path_resolve :: "string \<Rightarrow> string"
  is_file :: "string \<Rightarrow> bool"
  read_file :: "string \<Rightarrow> exn + string"

text \<open>
  The first lines of \<^verbatim>\<open>checkHasEvent\<close>: an argument that names an existing file stands
  for the contents of the file.
\<close>

definition resolve_data :: "'n env \<Rightarrow> string option \<Rightarrow> exn + string option" where
  "resolve_data env eventDataOrFile =
     (case eventDataOrFile of
        None \<Rightarrow> Inr None
      | Some s \<Rightarrow>
          (let maybePath = path_resolve env s in
           if is_file env maybePath then
             (case read_file env maybePath of Inl e \<Rightarrow> Inl e | Inr text \<Rightarrow> Inr (Some text))
           else Inr (Some s)))"

text \<open>
  The \<^verbatim>\<open>for\<close> loop over the events: the first event that is not matched yet, has the
  name and, when there is data to look for (\<^verbatim>\<open>!data\<close> is true of \<^verbatim>\<open>null\<close> and of the
  empty string), carries it. The storage does not change while the loop runs. The data
  is compared on a call stack with room for the comparison.
\<close>

fun scan :: "'n env \<Rightarrow> EventStorage \<Rightarrow> string \<Rightarrow> string option \<Rightarrow> Event list \<Rightarrow> exn + Event option" where
  "scan env st eventName data' [] = Inr None"
| "scan env st eventName data' (ev # rest) =
     (if isEventAlreadyMatched st (event_num ev) then scan env st eventName data' rest
      else if name ev \<noteq> eventName then scan env st eventName data' rest
      else
        (case data' of
           None \<Rightarrow> Inr (Some ev)
         | Some wanted \<Rightarrow>
             if wanted = '''' then Inr (Some ev)
             else
               (case data ev of
                  None \<Rightarrow> scan env st eventName data' rest
                | Some d \<Rightarrow>
                    (let evDataJson = stringify env d in
                     if evDataJson = '''' then scan env st eventName data' rest
                     else
                       (case containsJsonData (parser env) (numstr env) evDataJson wanted of
                          Inl e \<Rightarrow> Inl (JsError e)
                        | Inr found \<Rightarrow>
                            if found then Inr (Some ev)
                            else scan env st eventName data' rest)))))"

text \<open>
  The \<^verbatim>\<open>while\<close> loop runs until \<^verbatim>\<open>Date.now() - started < timeoutMs\<close> fails. Real time
  is not part of the model: how many times the loop body runs before the deadline is for
  the environment to say, together with the events that the receiver stores while the
  loop sleeps. The list \<open>arrivals\<close> has one entry for each run of the body, the batch
  that arrives during its \<^verbatim>\<open>sleep(500)\<close>; a timeout that is not positive allows no run.
  The result is the outcome and the storage as the call leaves it.
\<close>

fun poll ::
  "'n env \<Rightarrow> EventStorage \<Rightarrow> string \<Rightarrow> string option \<Rightarrow> real \<Rightarrow> Event list list
   \<Rightarrow> (exn + unit) \<times> EventStorage" where
  "poll env st eventName data' timeout [] =
     (Inl (EventTimeout eventName
             (if data' = None \<or> data' = Some '''' then None else data') timeout), st)"
| "poll env st eventName data' timeout (batch # arrivals) =
     (case scan env st eventName data' (getEvents st) of
        Inl e \<Rightarrow> (Inl e, st)
      | Inr (Some ev) \<Rightarrow> (Inr (), markEventAsMatched st (event_num ev))
      | Inr None \<Rightarrow> poll env (addEvents st batch) eventName data' timeout arrivals)"

definition checkHasEvent ::
  "'n env \<Rightarrow> EventStorage \<Rightarrow> string \<Rightarrow> string option \<Rightarrow> real \<Rightarrow> Event list list
   \<Rightarrow> (exn + unit) \<times> EventStorage" where
  "checkHasEvent env st eventName eventDataOrFile timeoutEventExpectation arrivals =
     (case resolve_data env eventDataOrFile of
        Inl e \<Rightarrow> (Inl e, st)
      | Inr data' \<Rightarrow>
          poll env st eventName data' timeoutEventExpectation
            (if timeoutEventExpectation \<le> 0 then [] else arrivals))"

section \<open>The device and the element resolution loop\<close>

text \<open>
  The automation driver is outside the program. It is a record of operations on a device
  state \<open>'d\<close> that the model knows nothing of; an operation returns its result, or the
  message of the error it throws, and the next state. An element is the reference the
  driver hands out for it. Numbers that the driver returns (positions and sizes) are
  reals here, and the coordinates of a gesture are computed in real arithmetic and
  rounded as \<^verbatim>\<open>Math.round\<close> rounds.
\<close>

type_synonym ElementRef = string

text \<open>
  Modelled from the spec: the enumeration \<^verbatim>\<open>ScrollDirection\<close> of
  \<^verbatim>\<open>core/gestures/scroll-direction\<close> is not among the sources; these are the four
  members the sources use.
\<close>

datatype ScrollDirection = Down | Up | Right | Left

datatype PointerAction =
    PointerMove nat int int
  | PointerDown
  | Pause nat
  | PointerUp

record 'd Driver =
  getPageSource :: "'d \<Rightarrow> (string + string) \<times> 'd"
  findElements :: "Locator \<Rightarrow> 'd \<Rightarrow> (string + ElementRef list) \<times> 'd"
  isDisplayed :: "ElementRef \<Rightarrow> 'd \<Rightarrow> (string + bool) \<times> 'd"
  getLocation :: "ElementRef \<Rightarrow> 'd \<Rightarrow> (string + real \<times> real) \<times> 'd"
  getSize :: "ElementRef \<Rightarrow> 'd \<Rightarrow> (string + real \<times> real) \<times> 'd"
  getWindowSize :: "'d \<Rightarrow> (string + real \<times> real) \<times> 'd"
  performActions :: "PointerAction list \<Rightarrow> 'd \<Rightarrow> (string + unit) \<times> 'd"
  releaseActions :: "'d \<Rightarrow> (string + unit) \<times> 'd"

datatype Call =
    CallGetPageSource
  | CallFindElements Locator
  | CallIsDisplayed ElementRef
  | CallGetLocation ElementRef
  | CallGetSize ElementRef
  | CallGetWindowSize
  | CallPerformActions "PointerAction list"
  | CallReleaseActions

text \<open>
  The world of a test action: the state of the device, the calls made to the driver so
  far, and, since real time is not part of the model, for every loop with a deadline that
  is still to run the number of times its body will run before the deadline
  (\<open>deadlines\<close>). A loop whose timeout is not positive does not run at all.
\<close>

record 'd World =
  device :: 'd
  calls :: "Call list"
  deadlines :: "nat list"

definition call :: "Call \<Rightarrow> ('d \<Rightarrow> (string + 'r) \<times> 'd) \<Rightarrow> 'd World \<Rightarrow> (exn + 'r) \<times> 'd World" where
  "call c operation w =
     (case operation (device w) of
        (result, d) \<Rightarrow>
          (case result of Inl message \<Rightarrow> Inl (DriverError message) | Inr r \<Rightarrow> Inr r,
           w\<lparr>device := d, calls := calls w @ [c]\<rparr>))"

definition take_deadline :: "real \<Rightarrow> 'd World \<Rightarrow> nat \<times> 'd World" where
  "take_deadline timeoutSec w =
     (if timeoutSec \<le> 0 then (0, w)
      else case deadlines w of [] \<Rightarrow> (0, w) | n # rest \<Rightarrow> (n, w\<lparr>deadlines := rest\<rparr>))"

text \<open>
  The numbers of the runtime are doubles. A double is modelled by the real number it
  stands for (\<^verbatim>\<open>NaN\<close> and the infinities are not represented), and the result of an
  arithmetic operation is the real result rounded to the nearest double, a tie going to
  the double with the even significand. A double has 53 significant bits: with \<open>e\<close> the
  exponent of \<open>x\<close>, the integer for which \<open>x\<close> lies between \<open>2\<close> to the power \<open>e\<close> and
  \<open>2\<close> to the power \<open>e + 1\<close>, the doubles around \<open>x\<close> are the multiples of \<open>2\<close> to the power
  \<open>e - 52\<close>. The rounding is written for the normal range, without the subnormal numbers
  and without overflow; the sizes and coordinates of a screen are far from both. A
  number literal of the source stands for the double nearest to it.
\<close>

definition round_even :: "real \<Rightarrow> int" where
  "round_even y =
     (let f = \<lfloor>y\<rfloor> in
      if y - of_int f < 1 / 2 then f
      else if 1 / 2 < y - of_int f then f + 1
      else if even f then f else f + 1)"

definition exponent :: "real \<Rightarrow> int" where
  "exponent x =
     (if 1 \<le> \<bar>x\<bar> then bitlen \<lfloor>\<bar>x\<bar>\<rfloor> - 1
      else - int (ceillog2 (nat \<lceil>1 / \<bar>x\<bar>\<rceil>)))"

definition ulp :: "real \<Rightarrow> real" where
  "ulp x =
     (let e = exponent x in
      if 52 \<le> e then 2 ^ nat (e - 52) else 1 / 2 ^ nat (52 - e))"

definition fl :: "real \<Rightarrow> real" where
  "fl x = (if x = 0 then 0 else of_int (round_even (x / ulp x)) * ulp x)"

definition js_add :: "real \<Rightarrow> real \<Rightarrow> real" where
  "js_add a b = fl (a + b)"

definition js_sub :: "real \<Rightarrow> real \<Rightarrow> real" where
  "js_sub a b = fl (a - b)"

definition js_mul :: "real \<Rightarrow> real \<Rightarrow> real" where
  "js_mul a b = fl (a * b)"

definition js_div :: "real \<Rightarrow> real \<Rightarrow> real" where
  "js_div a b = fl (a / b)"

text \<open>
  \<^verbatim>\<open>Math.round(x)\<close> is the integer nearest to \<open>x\<close>, the upper one of two that are equally
  near.
\<close>

definition Math_round :: "real \<Rightarrow> int" where
  "Math_round x = \<lfloor>x + 1 / 2\<rfloor>"

definition DEFAULT_TIMEOUT_BEFORE_EXPECTATION :: real where
  "DEFAULT_TIMEOUT_BEFORE_EXPECTATION = 0"

definition DEFAULT_TIMEOUT_EXPECTATION :: real where
  "DEFAULT_TIMEOUT_EXPECTATION = 10"

definition DEFAULT_SCROLL_COEFFICIENT :: real where
  "DEFAULT_SCROLL_COEFFICIENT = fl (75 / 100)"

definition DEFAULT_SWIPE_COEFFICIENT :: real where
  "DEFAULT_SWIPE_COEFFICIENT = fl (95 / 100)"

definition DEFAULT_SCROLL_COUNT :: int where
  "DEFAULT_SCROLL_COUNT = 0"

definition DEFAULT_SCROLL_CAPACITY :: real where
  "DEFAULT_SCROLL_CAPACITY = 1"

definition DEFAULT_POLLING_INTERVAL :: nat where
  "DEFAULT_POLLING_INTERVAL = 1000"

definition DEFAULT_SCROLL_DIRECTION :: ScrollDirection where
  "DEFAULT_SCROLL_DIRECTION = Down"

subsection \<open>\<^verbatim>\<open>waitForUIStable\<close> and \<^verbatim>\<open>findAllByLocator\<close>\<close>

text \<open>
  \<^verbatim>\<open>waitForUIStable\<close> reads the page source, then sleeps and reads again until two
  reads agree or the deadline passes; an error of the driver leaves the function.
\<close>

fun stable_loop :: "'d Driver \<Rightarrow> nat \<Rightarrow> string \<Rightarrow> 'd World \<Rightarrow> (exn + unit) \<times> 'd World" where
  "stable_loop drv 0 prev w = (Inr (), w)"
| "stable_loop drv (Suc n) prev w =
     (case call CallGetPageSource (getPageSource drv) w of
        (Inl e, w1) \<Rightarrow> (Inl e, w1)
      | (Inr cur, w1) \<Rightarrow> if cur = prev then (Inr (), w1) else stable_loop drv n cur w1)"

definition waitForUIStable ::
  "'d Driver \<Rightarrow> real \<Rightarrow> nat \<Rightarrow> 'd World \<Rightarrow> (exn + unit) \<times> 'd World" where
  "waitForUIStable drv timeoutSec pollMs w =
     (if timeoutSec \<le> 0 then (Inr (), w)
      else case call CallGetPageSource (getPageSource drv) w of
        (Inl e, w1) \<Rightarrow> (Inl e, w1)
      | (Inr prev, w1) \<Rightarrow>
          (case take_deadline timeoutSec w1 of (n, w2) \<Rightarrow> stable_loop drv n prev w2))"

text \<open>
  \<^verbatim>\<open>findAllByLocator\<close> asks the driver until it returns elements or the deadline
  passes. An error of the driver is caught and kept in \<^verbatim>\<open>lastErr\<close>; after the loop the
  last error kept is thrown, and without one the result is the empty list. Wrapping the
  references that the driver found into elements is not a call of the device.
\<close>

fun find_loop ::
  "'d Driver \<Rightarrow> Locator \<Rightarrow> nat \<Rightarrow> exn option \<Rightarrow> 'd World \<Rightarrow> (exn + ElementRef list) \<times> 'd World" where
  "find_loop drv loc 0 lastErr w =
     (case lastErr of Some e \<Rightarrow> (Inl e, w) | None \<Rightarrow> (Inr [], w))"
| "find_loop drv loc (Suc n) lastErr w =
     (case call (CallFindElements loc) (findElements drv loc) w of
        (Inr els, w1) \<Rightarrow> if els \<noteq> [] then (Inr els, w1) else find_loop drv loc n lastErr w1
      | (Inl e, w1) \<Rightarrow> find_loop drv loc n (Some e) w1)"

definition findAllByLocator ::
  "'d Driver \<Rightarrow> Locator \<Rightarrow> real \<Rightarrow> nat \<Rightarrow> 'd World \<Rightarrow> (exn + ElementRef list) \<times> 'd World" where
  "findAllByLocator drv loc timeoutSec pollMs w =
     (case take_deadline timeoutSec w of (n, w1) \<Rightarrow> find_loop drv loc n None w1)"

subsection \<open>Gestures\<close>

definition touchAndMoveVertical ::
  "'d Driver \<Rightarrow> int \<Rightarrow> int \<Rightarrow> int \<Rightarrow> 'd World \<Rightarrow> (exn + unit) \<times> 'd World" where
  "touchAndMoveVertical drv centerX startY endY w =
     (let actions = [PointerMove 0 centerX startY, PointerDown, Pause 500,
                     PointerMove 500 centerX endY, PointerUp] in
      case call (CallPerformActions actions) (performActions drv actions) w of
        (Inl e, w1) \<Rightarrow> (Inl e, w1)
      | (Inr u, w1) \<Rightarrow> call CallReleaseActions (releaseActions drv) w1)"

definition touchAndMoveHorizontal ::
  "'d Driver \<Rightarrow> int \<Rightarrow> int \<Rightarrow> int \<Rightarrow> 'd World \<Rightarrow> (exn + unit) \<times> 'd World" where
  "touchAndMoveHorizontal drv centerY startX endX w =
     (let actions = [PointerMove 0 startX centerY, PointerDown, Pause 500,
                     PointerMove 500 endX centerY, PointerUp] in
      case call (CallPerformActions actions) (performActions drv actions) w of
        (Inl e, w1) \<Rightarrow> (Inl e, w1)
      | (Inr u, w1) \<Rightarrow> call CallReleaseActions (releaseActions drv) w1)"

text \<open>The \<^verbatim>\<open>for (let i = 0; i < scrollCount; i++)\<close> around one gesture.\<close>

fun repeat_gesture ::
  "nat \<Rightarrow> ('d World \<Rightarrow> (exn + unit) \<times> 'd World) \<Rightarrow> 'd World \<Rightarrow> (exn + unit) \<times> 'd World" where
  "repeat_gesture 0 gesture w = (Inr (), w)"
| "repeat_gesture (Suc n) gesture w =
     (case gesture w of
        (Inl e, w1) \<Rightarrow> (Inl e, w1)
      | (Inr u, w1) \<Rightarrow> repeat_gesture n gesture w1)"

text \<open>
  One gesture on the whole screen of the given size, and one inside the rectangle of an
  element, as the two branches of \<^verbatim>\<open>performScroll\<close> compute them.
\<close>

definition screen_gesture ::
  "'d Driver \<Rightarrow> real \<times> real \<Rightarrow> real \<Rightarrow> ScrollDirection \<Rightarrow> 'd World \<Rightarrow> (exn + unit) \<times> 'd World" where
  "screen_gesture drv window scrollCapacity scrollDirection w =
     (case window of (size_width, size_height) \<Rightarrow>
        if scrollDirection = Right \<or> scrollDirection = Left then
          (let isRight = (scrollDirection = Right);
               width = js_mul size_width scrollCapacity;
               centerY = Math_round (js_div size_height 2);
               startX = Math_round (if isRight then js_mul width DEFAULT_SCROLL_COEFFICIENT
                                    else js_mul width (js_sub 1 DEFAULT_SCROLL_COEFFICIENT));
               endX = Math_round (if isRight then 0 else width)
           in touchAndMoveHorizontal drv centerY startX endX w)
        else
          (let isDown = (scrollDirection = Down);
               height = js_mul size_height scrollCapacity;
               centerX = Math_round (js_div size_width 2);
               startY = Math_round (if isDown then js_mul height DEFAULT_SCROLL_COEFFICIENT
                                    else js_mul height (js_sub 1 DEFAULT_SCROLL_COEFFICIENT));
               endY = Math_round (if isDown then 0 else height)
           in touchAndMoveVertical drv centerX startY endY w))"

definition element_gesture ::
  "'d Driver \<Rightarrow> real \<times> real \<Rightarrow> real \<times> real \<Rightarrow> real \<Rightarrow> ScrollDirection \<Rightarrow> 'd World
   \<Rightarrow> (exn + unit) \<times> 'd World" where
  "element_gesture drv location rect_size scrollCapacity scrollDirection w =
     (case location of (rect_x, rect_y) \<Rightarrow>
      case rect_size of (rect_width, rect_height) \<Rightarrow>
        if scrollDirection = Right \<or> scrollDirection = Left then
          (let isRight = (scrollDirection = Right);
               width = js_mul rect_width scrollCapacity;
               centerY = Math_round (js_add rect_y (js_div rect_height 2));
               startX = Math_round
                 (js_add rect_x (if isRight then js_mul width DEFAULT_SWIPE_COEFFICIENT
                                 else js_mul width (js_sub 1 DEFAULT_SWIPE_COEFFICIENT)));
               endX = Math_round
                 (js_add rect_x (if isRight then js_mul width (js_sub 1 DEFAULT_SWIPE_COEFFICIENT)
                                 else js_mul width DEFAULT_SWIPE_COEFFICIENT))
           in touchAndMoveHorizontal drv centerY startX endX w)
        else
          (let isDown = (scrollDirection = Down);
               height = js_mul rect_height scrollCapacity;
               centerX = Math_round (js_add rect_x (js_div rect_width 2));
               startY = Math_round
                 (js_add rect_y (if isDown then js_mul height DEFAULT_SWIPE_COEFFICIENT
                                 else js_mul height (js_sub 1 DEFAULT_SWIPE_COEFFICIENT)));
               endY = Math_round
                 (js_add rect_y (if isDown then js_mul height (js_sub 1 DEFAULT_SWIPE_COEFFICIENT)
                                 else js_mul height DEFAULT_SWIPE_COEFFICIENT))
           in touchAndMoveVertical drv centerX startY endY w))"

text \<open>
  \<^verbatim>\<open>performScroll\<close> with no element: the check of the capacity, the size of the window,
  the gestures. \<^verbatim>\<open>waitForElements\<close> calls \<^verbatim>\<open>performScroll(null, 1, ...)\<close>, and
  \<^verbatim>\<open>performScroll\<close> with an element calls \<^verbatim>\<open>waitForElements\<close> with its default scroll
  count of 0; this is the half that \<^verbatim>\<open>waitForElements\<close> needs, defined first.
\<close>

definition scroll_screen ::
  "'d Driver \<Rightarrow> int \<Rightarrow> real \<Rightarrow> ScrollDirection \<Rightarrow> 'd World \<Rightarrow> (exn + unit) \<times> 'd World" where
  "scroll_screen drv scrollCount scrollCapacity scrollDirection w =
     (case call CallGetWindowSize (getWindowSize drv) w of
        (Inl e, w1) \<Rightarrow> (Inl e, w1)
      | (Inr window, w1) \<Rightarrow>
          repeat_gesture (nat scrollCount)
            (screen_gesture drv window scrollCapacity scrollDirection) w1)"

definition performScroll_screen ::
  "'d Driver \<Rightarrow> int \<Rightarrow> real \<Rightarrow> ScrollDirection \<Rightarrow> 'd World \<Rightarrow> (exn + unit) \<times> 'd World" where
  "performScroll_screen drv scrollCount scrollCapacity scrollDirection w =
     (if \<not> (scrollCapacity > 0 \<and> scrollCapacity \<le> 1) then (Inl (ScrollCapacity scrollCapacity), w)
      else scroll_screen drv scrollCount scrollCapacity scrollDirection w)"

subsection \<open>\<^verbatim>\<open>waitForElements\<close>\<close>

text \<open>
  The locators of one pass: \<^verbatim>\<open>getAll()\<close>, and when that is \<^verbatim>\<open>null\<close> the list of
  \<^verbatim>\<open>get()\<close> alone, without the entries that are falsy (\<^verbatim>\<open>filter(Boolean)\<close>). The
  element itself may be \<^verbatim>\<open>null\<close>.
\<close>

definition locators_of :: "Platform \<Rightarrow> PageElement option \<Rightarrow> Locator list" where
  "locators_of platform element =
     (let locators =
        (case element of
           None \<Rightarrow> [None]
         | Some el \<Rightarrow>
             (case getAll platform el of
                Some ls \<Rightarrow> map Some ls
              | None \<Rightarrow> [get platform el]))
      in concat (map (\<lambda>l. case l of Some loc \<Rightarrow> if truthy_loc loc then [loc] else []
                                | None \<Rightarrow> []) locators))"

text \<open>
  The body of the \<^verbatim>\<open>try\<close> for one locator: search, the two checks on what was found,
  the element at the ordinal (\<^verbatim>\<open>elementNumber ?? 1\<close>), its visibility.
\<close>

definition try_locator ::
  "'d Driver \<Rightarrow> Locator \<Rightarrow> int option \<Rightarrow> real \<Rightarrow> nat \<Rightarrow> 'd World \<Rightarrow> (exn + ElementRef) \<times> 'd World" where
  "try_locator drv loc elementNumber timeoutExpectation pollingInterval w =
     (case findAllByLocator drv loc timeoutExpectation pollingInterval w of
        (Inl e, w1) \<Rightarrow> (Inl e, w1)
      | (Inr els, w1) \<Rightarrow>
          if els = [] then (Inl ElementsNotFound, w1)
          else
            (let safeIndex = (case elementNumber of Some n \<Rightarrow> n | None \<Rightarrow> 1) in
             if safeIndex < 1 \<or> safeIndex > int (length els) then
               (Inl (OutOfRange elementNumber (length els)), w1)
             else
               (let el = els ! nat (safeIndex - 1) in
                case call (CallIsDisplayed el) (isDisplayed drv el) w1 of
                  (Inl e, w2) \<Rightarrow> (Inl e, w2)
                | (Inr displayed, w2) \<Rightarrow>
                    if displayed then (Inr el, w2) else (Inl NotVisible, w2))))"

text \<open>What \<^verbatim>\<open>waitForElements\<close> keeps across its passes.\<close>

record Search =
  attempted :: "Locator list"
  failed :: "Locator list"
  lastErr :: "exn option"

text \<open>
  The \<^verbatim>\<open>for\<close> loop over the locators: every locator is noted as attempted; the first
  visible element ends the search; whatever is thrown is caught, kept as \<^verbatim>\<open>lastErr\<close>,
  and the locator is noted as failed.
\<close>

fun try_locators ::
  "'d Driver \<Rightarrow> Locator list \<Rightarrow> int option \<Rightarrow> real \<Rightarrow> nat \<Rightarrow> Search \<Rightarrow> 'd World
   \<Rightarrow> (ElementRef option \<times> Search) \<times> 'd World" where
  "try_locators drv [] elementNumber timeoutExpectation pollingInterval acc w = ((None, acc), w)"
| "try_locators drv (loc # rest) elementNumber timeoutExpectation pollingInterval acc w =
     (let acc1 = acc\<lparr>attempted := attempted acc @ [loc]\<rparr> in
      case try_locator drv loc elementNumber timeoutExpectation pollingInterval w of
        (Inr el, w1) \<Rightarrow> ((Some el, acc1), w1)
      | (Inl e, w1) \<Rightarrow>
          try_locators drv rest elementNumber timeoutExpectation pollingInterval
            (acc1\<lparr>lastErr := Some e, failed := failed acc1 @ [loc]\<rparr>) w1)"

text \<open>
  The \<^verbatim>\<open>while (true)\<close>: a pass over the locators; then a scroll of the screen while the
  budget of scrolls lasts, or else the final error. An error of the scroll leaves the
  function as it is.
\<close>

function search_loop ::
  "'d Driver \<Rightarrow> Locator list \<Rightarrow> int option \<Rightarrow> real \<Rightarrow> nat \<Rightarrow> int \<Rightarrow> real \<Rightarrow> ScrollDirection
   \<Rightarrow> nat \<Rightarrow> Search \<Rightarrow> 'd World \<Rightarrow> (exn + ElementRef) \<times> 'd World" where
  "search_loop drv locators elementNumber timeoutExpectation pollingInterval scrollCount
       scrollCapacity scrollDirection currentScroll acc w =
     (case try_locators drv locators elementNumber timeoutExpectation pollingInterval acc w of
        ((Some el, acc1), w1) \<Rightarrow> (Inr el, w1)
      | ((None, acc1), w1) \<Rightarrow>
          if scrollCount > 0 \<and> int currentScroll < scrollCount then
            (case performScroll_screen drv 1 scrollCapacity scrollDirection w1 of
               (Inl e, w2) \<Rightarrow> (Inl e, w2)
             | (Inr u, w2) \<Rightarrow>
                 search_loop drv locators elementNumber timeoutExpectation pollingInterval
                   scrollCount scrollCapacity scrollDirection (Suc currentScroll) acc1 w2)
          else
            (Inl (Exhausted timeoutExpectation currentScroll (failed acc1) (attempted acc1)
                    (lastErr acc1)), w1))"
  by pat_completeness auto
termination
  by (relation "measure (\<lambda>(drv, locators, elementNumber, timeoutExpectation, pollingInterval,
        scrollCount, scrollCapacity, scrollDirection, currentScroll, acc, w).
        nat (scrollCount - int currentScroll))") auto

declare search_loop.simps [simp del]

text \<open>
  The platform is fixed during a call (the specification asks callers to keep it so), so
  the locators of the element are the same in every pass.
\<close>

definition waitForElements ::
  "'d Driver \<Rightarrow> Platform \<Rightarrow> PageElement option \<Rightarrow> int option \<Rightarrow> real \<Rightarrow> real \<Rightarrow> nat \<Rightarrow> int
   \<Rightarrow> real \<Rightarrow> ScrollDirection \<Rightarrow> 'd World \<Rightarrow> (exn + ElementRef) \<times> 'd World" where
  "waitForElements drv platform element elementNumber timeoutBeforeExpectation
       timeoutExpectation pollingInterval scrollCount scrollCapacity scrollDirection w =
     (case waitForUIStable drv timeoutBeforeExpectation pollingInterval w of
        (Inl e, w1) \<Rightarrow> (Inl e, w1)
      | (Inr u, w1) \<Rightarrow>
          search_loop drv (locators_of platform element) elementNumber timeoutExpectation
            pollingInterval scrollCount scrollCapacity scrollDirection 0
            \<lparr>attempted = [], failed = [], lastErr = None\<rparr> w1)"

subsection \<open>\<^verbatim>\<open>performScroll\<close> and the scroll and swipe operations\<close>

text \<open>
  \<^verbatim>\<open>performScroll\<close>: the capacity is checked before anything else. With an element,
  the element is resolved with the defaults of \<^verbatim>\<open>waitForElements\<close>, its position and
  its size are asked for together (\<^verbatim>\<open>Promise.all\<close>: both calls are made, the first error
  counts), and the gestures stay inside its rectangle.
\<close>

definition performScroll ::
  "'d Driver \<Rightarrow> Platform \<Rightarrow> PageElement option \<Rightarrow> int \<Rightarrow> real \<Rightarrow> ScrollDirection \<Rightarrow> 'd World
   \<Rightarrow> (exn + unit) \<times> 'd World" where
  "performScroll drv platform element scrollCount scrollCapacity scrollDirection w =
     (if \<not> (scrollCapacity > 0 \<and> scrollCapacity \<le> 1) then (Inl (ScrollCapacity scrollCapacity), w)
      else case element of
        Some pageElement \<Rightarrow>
          (case waitForElements drv platform (Some pageElement) None
                  DEFAULT_TIMEOUT_BEFORE_EXPECTATION DEFAULT_TIMEOUT_EXPECTATION
                  DEFAULT_POLLING_INTERVAL DEFAULT_SCROLL_COUNT DEFAULT_SCROLL_CAPACITY
                  DEFAULT_SCROLL_DIRECTION w of
             (Inl e, w1) \<Rightarrow> (Inl e, w1)
           | (Inr el, w1) \<Rightarrow>
               (case call (CallGetLocation el) (getLocation drv el) w1 of
                  (loc, w2) \<Rightarrow>
                    (case call (CallGetSize el) (getSize drv el) w2 of
                       (sz, w3) \<Rightarrow>
                         (case loc of
                            Inl e \<Rightarrow> (Inl e, w3)
                          | Inr location \<Rightarrow>
                              (case sz of
                                 Inl e \<Rightarrow> (Inl e, w3)
                               | Inr rect_size \<Rightarrow>
                                   repeat_gesture (nat scrollCount)
                                     (element_gesture drv location rect_size scrollCapacity
                                        scrollDirection) w3)))))
      | None \<Rightarrow> scroll_screen drv scrollCount scrollCapacity scrollDirection w)"

definition scrollDown :: "'d Driver \<Rightarrow> Platform \<Rightarrow> int \<Rightarrow> real \<Rightarrow> 'd World \<Rightarrow> (exn + unit) \<times> 'd World" where
  "scrollDown drv platform scrollCount scrollCapacity w =
     performScroll drv platform None scrollCount scrollCapacity Down w"

definition scrollUp :: "'d Driver \<Rightarrow> Platform \<Rightarrow> int \<Rightarrow> real \<Rightarrow> 'd World \<Rightarrow> (exn + unit) \<times> 'd World" where
  "scrollUp drv platform scrollCount scrollCapacity w =
     performScroll drv platform None scrollCount scrollCapacity Up w"

definition scrollRight :: "'d Driver \<Rightarrow> Platform \<Rightarrow> int \<Rightarrow> real \<Rightarrow> 'd World \<Rightarrow> (exn + unit) \<times> 'd World" where
  "scrollRight drv platform scrollCount scrollCapacity w =
     performScroll drv platform None scrollCount scrollCapacity Right w"

definition scrollLeft :: "'d Driver \<Rightarrow> Platform \<Rightarrow> int \<Rightarrow> real \<Rightarrow> 'd World \<Rightarrow> (exn + unit) \<times> 'd World" where
  "scrollLeft drv platform scrollCount scrollCapacity w =
     performScroll drv platform None scrollCount scrollCapacity Left w"

definition swipeDown ::
  "'d Driver \<Rightarrow> Platform \<Rightarrow> PageElement option \<Rightarrow> int \<Rightarrow> real \<Rightarrow> 'd World \<Rightarrow> (exn + unit) \<times> 'd World" where
  "swipeDown drv platform element scrollCount scrollCapacity w =
     performScroll drv platform element scrollCount scrollCapacity Down w"

definition swipeUp ::
  "'d Driver \<Rightarrow> Platform \<Rightarrow> PageElement option \<Rightarrow> int \<Rightarrow> real \<Rightarrow> 'd World \<Rightarrow> (exn + unit) \<times> 'd World" where
  "swipeUp drv platform element scrollCount scrollCapacity w =
     performScroll drv platform element scrollCount scrollCapacity Up w"

definition swipeRight ::
  "'d Driver \<Rightarrow> Platform \<Rightarrow> PageElement option \<Rightarrow> int \<Rightarrow> real \<Rightarrow> 'd World \<Rightarrow> (exn + unit) \<times> 'd World" where
  "swipeRight drv platform element scrollCount scrollCapacity w =
     performScroll drv platform element scrollCount scrollCapacity Right w"

definition swipeLeft ::
  "'d Driver \<Rightarrow> Platform \<Rightarrow> PageElement option \<Rightarrow> int \<Rightarrow> real \<Rightarrow> 'd World \<Rightarrow> (exn + unit) \<times> 'd World" where
  "swipeLeft drv platform element scrollCount scrollCapacity w =
     performScroll drv platform element scrollCount scrollCapacity Left w"

section \<open>Values to run the examples with\<close>

text \<open>
  The examples below need a \<^verbatim>\<open>JSON.parse\<close> that reads their texts. This one knows three
  texts, the pattern \<^verbatim>\<open>{"x":1}\<close>, the body of an event and the event around that body
  (the body JSON-quoted in it), and reads them as \<^verbatim>\<open>JSON.parse\<close> does; it rejects every
  other text. Numbers are naturals, printed in decimal.
\<close>

definition quoted :: "string \<Rightarrow> string" where
  "quoted s =
     [CHR 0x22]
     @ concat (map (\<lambda>c. if c = CHR 0x22 \<or> c = CHR 0x5C then [CHR 0x5C, c] else [c]) s)
     @ [CHR 0x22]"

definition body_text :: string where
  \<open>body_text = ''{"event":{"data":{"x":1,"items":[{"name":"a"}]}}}''\<close>

definition event_text :: string where
  \<open>event_text = ''{"body":'' @ quoted body_text @ ''}''\<close>

definition example_texts :: "(string \<times> nat jsval) list" where
  \<open>example_texts =
     [(''{"x":1}'', JObj [(''x'', JNum 1)]),
      (body_text,
       JObj [(''event'', JObj [(''data'',
          JObj [(''x'', JNum 1), (''items'', JArr [JObj [(''name'', JStr ''a'')]])])])]),
      (event_text, JObj [(''body'', JStr body_text)])]\<close>

definition example_parse :: "string \<Rightarrow> nat jsval option" where
  "example_parse = map_of example_texts"

definition P0 :: "nat json_parser" where
  "P0 = Abs_json_parser example_parse"

text \<open>
  An element with a list on Android and a single query on iOS, and an element with
  nothing configured.
\<close>

definition example_element :: PageElement where
  "example_element =
     \<lparr>android = None, ios = Some (Using ''accessibility id'' ''ok''),
      androidList = Some [Selector ''//a'', Selector ''//b''], iosList = None\<rparr>"

definition bare_element :: PageElement where
  "bare_element = \<lparr>android = None, ios = None, androidList = None, iosList = None\<rparr>"

text \<open>Events to run the examples with: an event named \<open>X\<close> and one named \<open>Y\<close>.\<close>

definition ev_x :: "int \<Rightarrow> Event" where
  "ev_x n =
     \<lparr>event_time = ''2025-01-01T00:00:00.000Z'', event_num = n, name = ''X'', data = None\<rparr>"

definition ev_y :: "int \<Rightarrow> Event" where
  "ev_y n =
     \<lparr>event_time = ''2025-01-01T00:00:00.000Z'', event_num = n, name = ''Y'', data = None\<rparr>"

text \<open>
  The environment of the examples: the parser of the examples, decimal numbers, a
  \<^verbatim>\<open>JSON.stringify\<close> that renders the data of an event as the envelope around its
  body, and a file system without files.
\<close>

definition env0 :: "nat env" where
  \<open>env0 =
     \<lparr>parser = P0, numstr = digits,
      stringify = (\<lambda>d. ''{"body":'' @ quoted (body d) @ ''}''),
      path_resolve = (\<lambda>p. p), is_file = (\<lambda>p. False),
      read_file = (\<lambda>p. Inl (DriverError ''ENOENT''))\<rparr>\<close>

definition log0 :: EventStorage where
  "log0 = \<lparr>events = [ev_y 6, ev_x 7], matchedEvents = {}\<rparr>"

text \<open>
  A device to run the examples on: a window of 1080 by 1920, two elements under the
  locator \<^verbatim>\<open>//item\<close> and none under any other, every element displayed; its state counts
  the gestures. The world of the examples gives the one loop with a deadline one run.
\<close>

definition drv0 :: "nat Driver" where
  "drv0 =
     \<lparr>getPageSource = (\<lambda>d. (Inr ''<page/>'', d)),
      findElements = (\<lambda>loc d. (Inr (if loc = Selector ''//item'' then [''e1'', ''e2''] else []), d)),
      isDisplayed = (\<lambda>el d. (Inr True, d)),
      getLocation = (\<lambda>el d. (Inr (0, 0), d)),
      getSize = (\<lambda>el d. (Inr (100, 50), d)),
      getWindowSize = (\<lambda>d. (Inr (1080, 1920), d)),
      performActions = (\<lambda>actions d. (Inr (), Suc d)),
      releaseActions = (\<lambda>d. (Inr (), d))\<rparr>"

definition world0 :: "nat World" where
  "world0 = \<lparr>device = 0, calls = [], deadlines = [1]\<rparr>"

text \<open>An element that the device has two of, and an element that it has none of.\<close>

definition item_element :: PageElement where
  "item_element =
     \<lparr>android = Some (Selector ''//item''), ios = None, androidList = None, iosList = None\<rparr>"



section \<open>What the runtime operations and the matcher compute\<close>

lemma js_includes_iff: "js_includes hay needle \<longleftrightarrow> (\<exists>pre post. hay = pre @ needle @ post)"
proof (induction hay)
  case Nil
  then show ?case by auto
next
  case (Cons c cs)
  show ?case
  proof
    assume "js_includes (c # cs) needle"
    then consider "prefix needle (c # cs)" | "js_includes cs needle" by auto
    then show "\<exists>pre post. c # cs = pre @ needle @ post"
    proof cases
      case 1
      then obtain post where "c # cs = needle @ post" by (auto simp: prefix_def)
      then have "c # cs = [] @ needle @ post" by simp
      then show ?thesis by blast
    next
      case 2
      with Cons obtain pre post where "cs = pre @ needle @ post" by blast
      then have "c # cs = (c # pre) @ needle @ post" by simp
      then show ?thesis by blast
    qed
  next
    assume "\<exists>pre post. c # cs = pre @ needle @ post"
    then obtain pre post where e: "c # cs = pre @ needle @ post" by blast
    show "js_includes (c # cs) needle"
    proof (cases pre)
      case Nil
      with e have "prefix needle (c # cs)" by (simp add: prefix_def)
      then show ?thesis by simp
    next
      case (Cons a pre')
      with e have "cs = pre' @ needle @ post" by simp
      with Cons.IH show ?thesis by auto
    qed
  qed
qed

lemma every_total:
  "\<forall>x\<in>set xs. \<exists>b. f x = Inr b \<Longrightarrow> every f xs = Inr (\<forall>x\<in>set xs. f x = Inr True)"
proof (induction xs)
  case Nil
  show ?case by simp
next
  case (Cons a xs)
  then obtain b where "f a = Inr b" by auto
  with Cons show ?case by (cases b) auto
qed

lemma some_total:
  "\<forall>x\<in>set xs. \<exists>b. f x = Inr b \<Longrightarrow> some f xs = Inr (\<exists>x\<in>set xs. f x = Inr True)"
proof (induction xs)
  case Nil
  show ?case by simp
next
  case (Cons a xs)
  then obtain b where "f a = Inr b" by auto
  with Cons show ?case by (cases b) auto
qed

lemma match_obj_obj:
  "matchJsonElement P ns (JObj es) (JObj ps) =
     every (\<lambda>(k, sv). case lookup (JObj es) k of None \<Rightarrow> Inr False
                        | Some v \<Rightarrow> matchJsonElement P ns v sv) ps"
  apply (subst matchJsonElement.simps)
  apply (simp add: isPrimitive_def Object_entries_def)
  apply (rule every_cong)
   apply (auto simp: js_in_def js_get_def split: option.splits)
  done

lemma match_arr_arr:
  "matchJsonElement P ns (JArr es) (JArr ps) =
     every (\<lambda>se. some (\<lambda>ee. matchJsonElement P ns ee se) es) ps"
  apply (subst matchJsonElement.simps)
  apply (simp add: isPrimitive_def js_every_def js_some_def)
  done

lemma match_object_branch:
  assumes "truthy ns e" "typeof e = ''object''" "\<not> isArray e"
    and "truthy ns s" "typeof s = ''object''" "\<not> isArray s"
  shows "matchJsonElement P ns e s =
     every (\<lambda>(k, sv). case lookup e k of None \<Rightarrow> Inr False
                        | Some v \<Rightarrow> matchJsonElement P ns v sv) (own_props s)"
proof -
  from assms have ne: "e \<noteq> JUndefined" "e \<noteq> JNull" "s \<noteq> JUndefined" "s \<noteq> JNull"
    by auto
  from assms ne have np: "\<not> isPrimitive e" "\<not> isPrimitive s"
    by (auto simp: isPrimitive_def)
  have "matchJsonElement P ns e s =
      every (\<lambda>(k, sv).
                 case js_in k e of
                   Inl e \<Rightarrow> Inl e
                 | Inr present \<Rightarrow>
                     if \<not> present then Inr False
                     else (case js_get e k of
                             Inl e \<Rightarrow> Inl e
                           | Inr v \<Rightarrow> matchJsonElement P ns v sv)) (own_props s)"
    by (subst matchJsonElement.simps) (simp add: assms np ne Object_entries_def)
  also have "\<dots> = every (\<lambda>(k, sv). case lookup e k of None \<Rightarrow> Inr False
                        | Some v \<Rightarrow> matchJsonElement P ns v sv) (own_props s)"
    by (rule every_cong) (auto simp: js_in_def js_get_def assms ne split: option.splits)
  finally show ?thesis .
qed

lemma match_total: "\<exists>b. matchJsonElement P ns e s = Inr b"
proof (induction P ns e s rule: matchJsonElement.induct)
  case (1 P ns e s)
  show ?case
  proof (cases "isPrimitive e \<and> isPrimitive s")
    case True
    then show ?thesis
      by (subst matchJsonElement.simps) (auto simp: Let_def)
  next
    case np: False
    show ?thesis
    proof (cases "isPrimitive e \<and> typeof e = ''string'' \<and> tryParseJSON P (the_string e) \<noteq> JNull")
      case True
      with np 1(1) have "\<exists>b. matchJsonElement P ns (tryParseJSON P (the_string e)) s = Inr b"
        by blast
      with np True show ?thesis
        by (subst matchJsonElement.simps) simp
    next
      case nstr: False
      show ?thesis
      proof (cases "truthy ns e \<and> typeof e = ''object'' \<and> \<not> isArray e \<and>
                    truthy ns s \<and> typeof s = ''object'' \<and> \<not> isArray s")
        case True
        then have ne: "e \<noteq> JUndefined" "e \<noteq> JNull" "s \<noteq> JUndefined" "s \<noteq> JNull"
          by auto
        have "\<exists>b. matchJsonElement P ns v sv = Inr b"
          if "(k, sv) \<in> set (own_props s)" "lookup e k = Some v" for k sv v
          using 1(2)[of "own_props s" "(k, sv)" k sv True v] np nstr True that ne
          by (simp add: Object_entries_def js_in_def js_get_def)
        then have "\<forall>x\<in>set (own_props s). \<exists>b. (case x of (k, sv) \<Rightarrow>
             case lookup e k of None \<Rightarrow> Inr False | Some v \<Rightarrow> matchJsonElement P ns v sv) = Inr b"
          by (auto split: option.splits)
        from every_total[OF this] show ?thesis
          using True by (simp add: match_object_branch)
      next
        case no: False
        show ?thesis
        proof (cases "isArray e \<and> isArray s")
          case True
          then obtain es ps where e: "e = JArr es" and s: "s = JArr ps"
            by (cases e; cases s) auto
          have sub: "\<exists>b. matchJsonElement P ns ee se = Inr b"
            if "se \<in> set ps" "ee \<in> set es" for se ee
            using 1(3)[of ps se es ee] np nstr no True that by (simp add: e s)
          have "\<forall>se\<in>set ps. \<exists>b. some (\<lambda>ee. matchJsonElement P ns ee se) es = Inr b"
          proof
            fix se assume "se \<in> set ps"
            with sub have "\<forall>ee\<in>set es. \<exists>b. matchJsonElement P ns ee se = Inr b" by blast
            from some_total[OF this] show "\<exists>b. some (\<lambda>ee. matchJsonElement P ns ee se) es = Inr b"
              by blast
          qed
          from every_total[OF this] show ?thesis
            unfolding e s match_arr_arr by blast
        next
          case False
          show ?thesis
            by (subst matchJsonElement.simps) (simp only: np nstr no False if_False, blast)
        qed
      qed
    qed
  qed
qed






lemma match_prim:
  "isPrimitive c \<Longrightarrow> isPrimitive p \<Longrightarrow>
   matchJsonElement P ns c p =
     (let ev = js_String ns c; sv = js_String ns p in
      if sv = ''*'' then Inr True
      else if sv = '''' then Inr (ev = '''')
      else if startsWith sv ''~'' then Inr (js_includes ev (drop 1 sv))
      else Inr (ev = sv))"
  by (subst matchJsonElement.simps) simp


lemma match_arr_obj: "matchJsonElement P ns (JArr xs) (JObj kvs) = Inr False"
  by (subst matchJsonElement.simps) (simp add: isPrimitive_def)







































lemma json_parser_abstype [code abstype]: "Abs_json_parser (JSON_parse P) = P"
  by (simp add: JSON_parse_def Rep_json_parser_inverse)



section \<open>Properties of the matcher\<close>

text \<open>
  Claim C1, as amended. Against the empty object pattern \<^verbatim>\<open>{}\<close> every candidate that
  is an object (and not an array) matches: \<^verbatim>\<open>Object.entries({})\<close> is empty and
  \<^verbatim>\<open>every\<close> of nothing is true. An array candidate does not match it: the object
  branch asks for \<^verbatim>\<open>!Array.isArray(eventElement)\<close>, the array branch for an array
  pattern, and what is left is \<^verbatim>\<open>return false\<close>.
\<close>

theorem C1_empty_object_pattern:
  "matchJsonElement P ns (JObj kvs) (JObj []) = Inr True \<and>
   matchJsonElement P ns (JArr xs) (JObj []) = Inr False"
  by (simp add: match_obj_obj match_arr_obj)

theorem C1_empty_object_pattern_witness:
  "matchJsonElement P0 digits (JObj [(''a'', JNum 1)]) (JObj []) = Inr True \<and>
   matchJsonElement P0 digits (JArr []) (JObj []) = Inr False"
  using C1_empty_object_pattern[of P0 digits "[(''a'', JNum 1)]" "[]"] by simp

text \<open>
  The claim as it was stated, for every object or array candidate, fails at the array
  \<^verbatim>\<open>[1, 2]\<close>.
\<close>

theorem C1_array_candidate_counterexample:
  "matchJsonElement P0 digits (JArr [JNum 1, JNum 2]) (JObj []) = Inr False"
  by (rule match_arr_obj)

text \<open>
  Claim C3. On two primitives the match is decided on their stringifications: the
  pattern \<^verbatim>\<open>"*"\<close> matches every candidate; the pattern \<^verbatim>\<open>""\<close> matches the candidate
  whose stringification is \<^verbatim>\<open>""\<close> and no other; a pattern that starts with \<^verbatim>\<open>~\<close>
  matches the candidates whose stringification contains the rest of the pattern as a
  substring; any other pattern matches the candidates whose stringification is equal to
  its own. The four cases exclude each other, so their order is of no consequence.
\<close>

theorem C3_primitive_rules:
  assumes "isPrimitive c" and "isPrimitive p"
  shows "(js_String ns p = ''*'' \<longrightarrow> matchJsonElement P ns c p = Inr True) \<and>
         (js_String ns p = '''' \<longrightarrow>
            matchJsonElement P ns c p = Inr (js_String ns c = '''')) \<and>
         (\<forall>rest. js_String ns p = CHR ''~'' # rest \<longrightarrow>
            matchJsonElement P ns c p = Inr (\<exists>pre post. js_String ns c = pre @ rest @ post)) \<and>
         (js_String ns p \<noteq> ''*'' \<and> js_String ns p \<noteq> '''' \<and>
          \<not> startsWith (js_String ns p) ''~'' \<longrightarrow>
            matchJsonElement P ns c p = Inr (js_String ns c = js_String ns p))"
  using assms by (auto simp: match_prim Let_def startsWith_def js_includes_iff)

text \<open>The examples of the specification, and a number against the wildcard and itself.\<close>

theorem C3_primitive_rules_witness:
  "matchJsonElement P0 digits (JStr ''hello world'') (JStr ''~world'') = Inr True \<and>
   matchJsonElement P0 digits (JStr ''hello'') (JStr ''~world'') = Inr False \<and>
   matchJsonElement P0 digits (JStr '''') (JStr '''') = Inr True \<and>
   matchJsonElement P0 digits (JStr ''x'') (JStr '''') = Inr False \<and>
   matchJsonElement P0 digits (JNum 5) (JStr ''*'') = Inr True \<and>
   matchJsonElement P0 digits (JNum 5) (JStr ''5'') = Inr True"
  using C3_primitive_rules[of "JStr ''hello world''" "JStr ''~world''" digits P0]
    C3_primitive_rules[of "JStr ''hello''" "JStr ''~world''" digits P0]
    C3_primitive_rules[of "JStr ''''" "JStr ''''" digits P0]
    C3_primitive_rules[of "JStr ''x''" "JStr ''''" digits P0]
    C3_primitive_rules[of "JNum 5" "JStr ''*''" digits P0]
    C3_primitive_rules[of "JNum 5" "JStr ''5''" digits P0]
  by (simp add: isPrimitive_def startsWith_def js_includes_iff[symmetric] digits.simps)

text \<open>
  Claim C4. An array candidate matches an array pattern exactly when every element of
  the pattern matches some element of the candidate. Nothing ties a pattern element to a
  position, and nothing stops two pattern elements from being matched by the same
  candidate element; a pattern with an element that no candidate element matches fails.
\<close>

theorem C4_array_existential:
  "matchJsonElement P ns (JArr es) (JArr ps) =
     Inr (\<forall>p\<in>set ps. \<exists>e\<in>set es. matchJsonElement P ns e p = Inr True)"
proof -
  have inner: "some (\<lambda>ee. matchJsonElement P ns ee se) es =
      Inr (\<exists>e\<in>set es. matchJsonElement P ns e se = Inr True)" for se
    by (rule some_total) (simp add: match_total)
  have "every (\<lambda>se. some (\<lambda>ee. matchJsonElement P ns ee se) es) ps =
      Inr (\<forall>se\<in>set ps. some (\<lambda>ee. matchJsonElement P ns ee se) es = Inr True)"
    by (rule every_total) (simp add: inner)
  then show ?thesis
    by (simp add: match_arr_arr inner)
qed

text \<open>
  The two examples of the specification, \<^verbatim>\<open>[{"a":1},{"a":2}]\<close> against \<^verbatim>\<open>[{"a":2}]\<close>
  and \<^verbatim>\<open>[{"a":1}]\<close> against \<^verbatim>\<open>[{"a":1},{"a":2}]\<close>; then \<^verbatim>\<open>[1]\<close> against
  \<^verbatim>\<open>[1,1]\<close>, where both pattern elements are matched by the one candidate element.
\<close>

theorem C4_array_existential_witness:
  "matchJsonElement P0 digits (JArr [JObj [(''a'', JNum 1)], JObj [(''a'', JNum 2)]])
      (JArr [JObj [(''a'', JNum 2)]]) = Inr True \<and>
   matchJsonElement P0 digits (JArr [JObj [(''a'', JNum 1)]])
      (JArr [JObj [(''a'', JNum 1)], JObj [(''a'', JNum 2)]]) = Inr False \<and>
   matchJsonElement P0 digits (JArr [JNum 1]) (JArr [JNum 1, JNum 1]) = Inr True"
  using C4_array_existential[of P0 digits
      "[JObj [(''a'', JNum 1)], JObj [(''a'', JNum 2)]]" "[JObj [(''a'', JNum 2)]]"]
    C4_array_existential[of P0 digits
      "[JObj [(''a'', JNum 1)]]" "[JObj [(''a'', JNum 1)], JObj [(''a'', JNum 2)]]"]
    C4_array_existential[of P0 digits "[JNum 1]" "[JNum 1, JNum 1]"]
  by (simp add: match_obj_obj match_prim isPrimitive_def startsWith_def digits.simps)






section \<open>Properties of the locator model\<close>

text \<open>
  Claim C9, as amended. For every \<^verbatim>\<open>PageElement\<close> and platform: \<^verbatim>\<open>get()\<close> is the single
  query of the platform, and without one the first query of the platform's list (nothing
  when the list is absent or empty); \<^verbatim>\<open>getAll()\<close> is the list of the platform as it was
  declared, and without a list the one-element list of the single query, unless that
  query is the empty string, which \<^verbatim>\<open>getAll()\<close> takes for no query; with neither a
  single query nor a list both answer \<^verbatim>\<open>null\<close>, and neither throws.
\<close>

theorem C9_page_element_queries:
  "get p el =
     (case single_query p el of
        Some q \<Rightarrow> Some q
      | None \<Rightarrow> (case query_list p el of Some (q # qs) \<Rightarrow> Some q | _ \<Rightarrow> None)) \<and>
   getAll p el =
     (case query_list p el of
        Some qs \<Rightarrow> Some qs
      | None \<Rightarrow>
          (case single_query p el of
             Some q \<Rightarrow> if q = Selector '''' then None else Some [q]
           | None \<Rightarrow> None)) \<and>
   (single_query p el = None \<and> query_list p el = None \<longrightarrow>
      get p el = None \<and> getAll p el = None)"
proof -
  have t: "truthy_loc q \<longleftrightarrow> q \<noteq> Selector ''''" for q
    by (cases q) auto
  show ?thesis
    by (cases p) (auto simp: get_def getAll_def single_query_def query_list_def t
        split: option.splits list.splits)
qed

theorem C9_page_element_queries_witness:
  "get ANDROID example_element = Some (Selector ''//a'') \<and>
   getAll ANDROID example_element = Some [Selector ''//a'', Selector ''//b''] \<and>
   get IOS example_element = Some (Using ''accessibility id'' ''ok'') \<and>
   getAll IOS example_element = Some [Using ''accessibility id'' ''ok''] \<and>
   get ANDROID bare_element = None \<and> getAll ANDROID bare_element = None"
  using C9_page_element_queries[of ANDROID example_element]
    C9_page_element_queries[of IOS example_element]
    C9_page_element_queries[of ANDROID bare_element]
  by (simp add: single_query_def query_list_def example_element_def bare_element_def)

text \<open>
  The claim as it was stated fails where the single query is the empty string and there
  is no list: \<^verbatim>\<open>get()\<close> returns the query, \<^verbatim>\<open>getAll()\<close> returns \<^verbatim>\<open>null\<close> and not the list
  of that query.
\<close>

theorem C9_empty_selector_counterexample:
  "get ANDROID \<lparr>android = Some (Selector ''''), ios = None, androidList = None, iosList = None\<rparr>
     = Some (Selector '''') \<and>
   getAll ANDROID \<lparr>android = Some (Selector ''''), ios = None, androidList = None, iosList = None\<rparr>
     = None"
  by (simp add: get_def getAll_def)

section \<open>Properties of the event storage\<close>

lemma eventExists_iff: "eventExists st n \<longleftrightarrow> (\<exists>e\<in>set (events st). event_num e = n)"
  by (auto simp: eventExists_def list_ex_iff)

lemma addEvents_Nil: "addEvents st [] = st"
  by (simp add: addEvents_def)

lemma addEvents_Cons: "addEvents st (ev # rest) = addEvents (addEvents st [ev]) rest"
  by (simp add: addEvents_def)

lemma addEvents_single:
  "addEvents st [ev] =
     (if \<exists>e\<in>set (events st). event_num e = event_num ev then st
      else st\<lparr>events := events st @ [ev]\<rparr>)"
  by (simp add: addEvents_def eventExists_iff)

lemma addEvents_matched: "matchedEvents (addEvents st newEvents) = matchedEvents st"
proof (induction newEvents arbitrary: st)
  case Nil
  show ?case by (simp add: addEvents_Nil)
next
  case (Cons ev rest)
  have "matchedEvents (addEvents st [ev]) = matchedEvents st"
    by (simp add: addEvents_single)
  with Cons[of "addEvents st [ev]"] show ?case
    by (simp add: addEvents_Cons[of st ev rest])
qed

lemma addEvents_prefix: "prefix (events st) (events (addEvents st newEvents))"
proof (induction newEvents arbitrary: st)
  case Nil
  show ?case by (simp add: addEvents_Nil)
next
  case (Cons ev rest)
  have "prefix (events st) (events (addEvents st [ev]))"
    by (simp add: addEvents_single)
  also have "prefix (events (addEvents st [ev])) (events (addEvents (addEvents st [ev]) rest))"
    by (rule Cons)
  finally show ?case
    by (simp add: addEvents_Cons[of st ev rest])
qed

lemma addEvents_distinct:
  "distinct (map event_num (events st)) \<Longrightarrow>
   distinct (map event_num (events (addEvents st newEvents)))"
proof (induction newEvents arbitrary: st)
  case Nil
  then show ?case by (simp add: addEvents_Nil)
next
  case (Cons ev rest)
  from Cons.prems have "distinct (map event_num (events (addEvents st [ev])))"
    by (auto simp: addEvents_single)
  then have "distinct (map event_num (events (addEvents (addEvents st [ev]) rest)))"
    by (rule Cons.IH)
  then show ?case
    by (simp add: addEvents_Cons[of st ev rest])
qed

lemma addEvents_subset:
  "set (events (addEvents st newEvents)) \<subseteq> set (events st) \<union> set newEvents"
proof (induction newEvents arbitrary: st)
  case Nil
  show ?case by (simp add: addEvents_Nil)
next
  case (Cons ev rest)
  have "set (events (addEvents st [ev])) \<subseteq> set (events st) \<union> {ev}"
    by (auto simp: addEvents_single)
  with Cons[of "addEvents st [ev]"] show ?case
    by (auto simp: addEvents_Cons[of st ev rest])
qed

lemma reachable_distinct: "reachable st \<Longrightarrow> distinct (map event_num (events st))"
proof (induction rule: reachable.induct)
  case init
  show ?case by (simp add: empty_storage_def)
next
  case (add st newEvents)
  then show ?case by (simp add: addEvents_distinct)
next
  case (mark st eventNum)
  then show ?case by (simp add: markEventAsMatched_def)
next
  case (clear st)
  show ?case by (simp add: clear_def)
qed

text \<open>
  Claim C10. \<^verbatim>\<open>addEvents\<close> takes the incoming events one by one and appends an event
  exactly when no stored event has its number, the events appended earlier in the same
  call included; the list it leaves starts with the list it found, so no entry is changed
  or moved, and the matched numbers are not touched. In every state that a storage
  reaches from the empty one the events returned by \<^verbatim>\<open>getEvents\<close> have pairwise
  distinct numbers.
\<close>

theorem C10_storage_dedup:
  "getEvents (addEvents st [ev]) =
     (if \<exists>e\<in>set (getEvents st). event_num e = event_num ev then getEvents st
      else getEvents st @ [ev]) \<and>
   addEvents st (ev # rest) = addEvents (addEvents st [ev]) rest \<and>
   prefix (getEvents st) (getEvents (addEvents st newEvents)) \<and>
   matchedEvents (addEvents st newEvents) = matchedEvents st \<and>
   (reachable st \<longrightarrow> distinct (map event_num (getEvents st)))"
proof (intro conjI impI)
  show "getEvents (addEvents st [ev]) =
     (if \<exists>e\<in>set (getEvents st). event_num e = event_num ev then getEvents st
      else getEvents st @ [ev])"
    by (auto simp: getEvents_def addEvents_single)
  show "addEvents st (ev # rest) = addEvents (addEvents st [ev]) rest"
    by (rule addEvents_Cons)
  show "prefix (getEvents st) (getEvents (addEvents st newEvents))"
    by (simp add: getEvents_def addEvents_prefix)
  show "matchedEvents (addEvents st newEvents) = matchedEvents st"
    by (rule addEvents_matched)
  show "distinct (map event_num (getEvents st))" if "reachable st"
    using that by (simp add: getEvents_def reachable_distinct)
qed

text \<open>
  A storage that received the events 1 and 2 receives a batch with the numbers 2, 3 and
  3: the first and the last of the batch are dropped.
\<close>

theorem C10_storage_dedup_witness:
  "getEvents (addEvents (addEvents empty_storage [ev_y 1, ev_x 2]) [ev_x 2, ev_y 3, ev_x 3]) =
     [ev_y 1, ev_x 2, ev_y 3] \<and>
   distinct (map event_num
     (getEvents (addEvents (addEvents empty_storage [ev_y 1, ev_x 2]) [ev_x 2, ev_y 3, ev_x 3])))"
proof -
  let ?st = "addEvents (addEvents empty_storage [ev_y 1, ev_x 2]) [ev_x 2, ev_y 3, ev_x 3]"
  have r: "reachable ?st"
    by (intro reachable.add reachable.init)
  have e: "getEvents ?st = [ev_y 1, ev_x 2, ev_y 3]"
    by (simp add: addEvents_def eventExists_def getEvents_def empty_storage_def ev_x_def ev_y_def)
  from C10_storage_dedup[of ?st "ev_x 2" "[]" "[]"] r e show ?thesis
    by simp
qed

section \<open>Properties of the event wait\<close>

lemma scan_result:
  "scan env st X d evs = Inr (Some ev) \<Longrightarrow>
   ev \<in> set evs \<and> name ev = X \<and> \<not> isEventAlreadyMatched st (event_num ev)"
  by (induction evs) (auto split: if_splits option.splits sum.splits simp: Let_def)

lemma scan_no_data:
  "scan env st X None evs =
     Inr (find (\<lambda>ev. \<not> isEventAlreadyMatched st (event_num ev) \<and> name ev = X) evs)"
  by (induction evs) auto

lemma find_single:
  "filter P xs = [x] \<Longrightarrow> Q x \<Longrightarrow> find (\<lambda>e. Q e \<and> P e) xs = Some x"
  by (induction xs) (auto split: if_splits)

lemma check_no_data:
  "checkHasEvent env st X None t arrivals =
     poll env st X None t (if t \<le> 0 then [] else arrivals)"
  by (simp add: checkHasEvent_def resolve_data_def)

lemma poll_marks:
  "poll env st X d t arrivals = (Inr (), st') \<Longrightarrow>
   \<exists>ev\<in>set (getEvents st'). name ev = X \<and> event_num ev \<notin> matchedEvents st \<and>
      matchedEvents st' = insert (event_num ev) (matchedEvents st)"
proof (induction arrivals arbitrary: st)
  case Nil
  then show ?case by simp
next
  case (Cons batch arrivals)
  show ?case
  proof (cases "scan env st X d (getEvents st)")
    case (Inl e)
    with Cons.prems show ?thesis by simp
  next
    case (Inr r)
    show ?thesis
    proof (cases r)
      case None
      with Inr Cons.prems have "poll env (addEvents st batch) X d t arrivals = (Inr (), st')"
        by simp
      from Cons.IH[OF this] show ?thesis
        by (simp add: addEvents_matched)
    next
      case (Some ev)
      with Inr have "ev \<in> set (getEvents st) \<and> name ev = X \<and>
          \<not> isEventAlreadyMatched st (event_num ev)"
        using scan_result by blast
      moreover from Some Inr Cons.prems have "st' = markEventAsMatched st (event_num ev)"
        by simp
      ultimately show ?thesis
        by (auto simp: markEventAsMatched_def isEventAlreadyMatched_def getEvents_def)
    qed
  qed
qed

lemma check_marks:
  "checkHasEvent env st X d t arrivals = (Inr (), st') \<Longrightarrow>
   \<exists>ev\<in>set (getEvents st'). name ev = X \<and> event_num ev \<notin> matchedEvents st \<and>
      matchedEvents st' = insert (event_num ev) (matchedEvents st)"
  unfolding checkHasEvent_def
  by (cases "resolve_data env d") (auto dest: poll_marks)

lemma poll_quiet:
  assumes "\<forall>ev\<in>set (getEvents st). name ev = X \<longrightarrow> isEventAlreadyMatched st (event_num ev)"
    and "\<forall>batch\<in>set arrivals. \<forall>ev\<in>set batch. name ev \<noteq> X"
  shows "\<exists>st'. poll env st X None t arrivals = (Inl (EventTimeout X None t), st') \<and>
     matchedEvents st' = matchedEvents st"
  using assms
proof (induction arrivals arbitrary: st)
  case Nil
  then show ?case by simp
next
  case (Cons batch arrivals)
  have none: "scan env st X None (getEvents st) = Inr None"
    using Cons.prems(1) by (auto simp: scan_no_data find_None_iff)
  have sub: "set (getEvents (addEvents st batch)) \<subseteq> set (getEvents st) \<union> set batch"
    using addEvents_subset by (simp add: getEvents_def)
  have "\<forall>ev\<in>set (getEvents (addEvents st batch)). name ev = X \<longrightarrow>
      isEventAlreadyMatched (addEvents st batch) (event_num ev)"
    using sub Cons.prems by (auto simp: isEventAlreadyMatched_def addEvents_matched)
  moreover have "\<forall>batch\<in>set arrivals. \<forall>ev\<in>set batch. name ev \<noteq> X"
    using Cons.prems(2) by simp
  ultimately obtain st' where
    "poll env (addEvents st batch) X None t arrivals = (Inl (EventTimeout X None t), st')"
    "matchedEvents st' = matchedEvents (addEvents st batch)"
    using Cons.IH by blast
  with none show ?case
    by (simp add: addEvents_matched)
qed

text \<open>
  Claim C2. With exactly one event named \<open>X\<close> in the log, not matched yet, a
  \<^verbatim>\<open>checkHasEvent("X")\<close> whose timeout is positive and leaves it the time of one scan
  succeeds and marks the number of that event. A second \<^verbatim>\<open>checkHasEvent("X")\<close> does not
  take the event again: as long as no further event named \<open>X\<close> arrives it ends in the
  error of the deadline, whatever its timeout, and marks nothing. In general a wait that
  succeeds marks exactly one number, one that was not marked before, so two waits of
  which the second sees the marks of the first never mark the same number.
\<close>

theorem C2_at_most_once:
  "(filter (\<lambda>e. name e = X) (getEvents st) = [ev] \<and>
    \<not> isEventAlreadyMatched st (event_num ev) \<and> 0 < t \<and> arrivals \<noteq> [] \<longrightarrow>
      checkHasEvent env st X None t arrivals = (Inr (), markEventAsMatched st (event_num ev)) \<and>
      isEventAlreadyMatched (markEventAsMatched st (event_num ev)) (event_num ev)) \<and>
   (filter (\<lambda>e. name e = X) (getEvents st) = [ev] \<and>
    (\<forall>batch\<in>set arrivals'. \<forall>e\<in>set batch. name e \<noteq> X) \<longrightarrow>
      (\<exists>st'. checkHasEvent env (markEventAsMatched st (event_num ev)) X None t' arrivals' =
                (Inl (EventTimeout X None t'), st') \<and>
             matchedEvents st' = matchedEvents (markEventAsMatched st (event_num ev)))) \<and>
   (checkHasEvent env st Y d t arrivals = (Inr (), st1) \<and>
    matchedEvents st1 \<subseteq> matchedEvents st2 \<and>
    checkHasEvent env' st2 Z d' t' arrivals' = (Inr (), st3) \<longrightarrow>
      (\<exists>n m. n \<noteq> m \<and>
         n \<notin> matchedEvents st \<and> matchedEvents st1 = insert n (matchedEvents st) \<and>
         m \<notin> matchedEvents st2 \<and> matchedEvents st3 = insert m (matchedEvents st2)))"
proof (intro conjI impI)
  assume a: "filter (\<lambda>e. name e = X) (getEvents st) = [ev] \<and>
    \<not> isEventAlreadyMatched st (event_num ev) \<and> 0 < t \<and> arrivals \<noteq> []"
  then obtain batch rest where ar: "arrivals = batch # rest"
    by (cases arrivals) auto
  have "find (\<lambda>e. \<not> isEventAlreadyMatched st (event_num e) \<and> name e = X) (getEvents st) = Some ev"
    using a by (simp add: find_single)
  then have "scan env st X None (getEvents st) = Inr (Some ev)"
    by (simp add: scan_no_data)
  with a ar show "checkHasEvent env st X None t arrivals =
      (Inr (), markEventAsMatched st (event_num ev))"
    by (simp add: check_no_data)
  show "isEventAlreadyMatched (markEventAsMatched st (event_num ev)) (event_num ev)"
    by (simp add: isEventAlreadyMatched_def markEventAsMatched_def)
next
  assume a: "filter (\<lambda>e. name e = X) (getEvents st) = [ev] \<and>
    (\<forall>batch\<in>set arrivals'. \<forall>e\<in>set batch. name e \<noteq> X)"
  let ?st = "markEventAsMatched st (event_num ev)"
  have "e = ev" if "e \<in> set (getEvents st)" "name e = X" for e
  proof -
    from that have "e \<in> set (filter (\<lambda>e. name e = X) (getEvents st))" by simp
    with a show ?thesis by simp
  qed
  then have all: "\<forall>e\<in>set (getEvents ?st). name e = X \<longrightarrow>
      isEventAlreadyMatched ?st (event_num e)"
    by (auto simp: getEvents_def markEventAsMatched_def isEventAlreadyMatched_def)
  have q: "\<forall>batch\<in>set (if t' \<le> 0 then [] else arrivals'). \<forall>e\<in>set batch. name e \<noteq> X"
    using a by simp
  from poll_quiet[where env=env and t=t', OF all q]
  show "\<exists>st'. checkHasEvent env ?st X None t' arrivals' = (Inl (EventTimeout X None t'), st') \<and>
      matchedEvents st' = matchedEvents ?st"
    by (auto simp: check_no_data)
next
  assume a: "checkHasEvent env st Y d t arrivals = (Inr (), st1) \<and>
    matchedEvents st1 \<subseteq> matchedEvents st2 \<and>
    checkHasEvent env' st2 Z d' t' arrivals' = (Inr (), st3)"
  from a check_marks[of env st Y d t arrivals st1]
  obtain n where n: "n \<notin> matchedEvents st" "matchedEvents st1 = insert n (matchedEvents st)"
    by blast
  from a check_marks[of env' st2 Z d' t' arrivals' st3]
  obtain m where m: "m \<notin> matchedEvents st2" "matchedEvents st3 = insert m (matchedEvents st2)"
    by blast
  from n a have "n \<in> matchedEvents st2" by blast
  with m have "n \<noteq> m" by blast
  with n m show "\<exists>n m. n \<noteq> m \<and>
         n \<notin> matchedEvents st \<and> matchedEvents st1 = insert n (matchedEvents st) \<and>
         m \<notin> matchedEvents st2 \<and> matchedEvents st3 = insert m (matchedEvents st2)"
    by blast
qed

text \<open>
  The log holds one \<open>Y\<close> and one \<open>X\<close>. The first wait for \<open>X\<close> marks the number 7; the
  second, with two scans before its deadline and nothing arriving, fails and leaves the
  marks as they are.
\<close>

theorem C2_at_most_once_witness:
  "checkHasEvent env0 log0 ''X'' None 15 [[]] = (Inr (), log0\<lparr>matchedEvents := {7}\<rparr>) \<and>
   checkHasEvent env0 (log0\<lparr>matchedEvents := {7}\<rparr>) ''X'' None 15 [[], []] =
     (Inl (EventTimeout ''X'' None 15), log0\<lparr>matchedEvents := {7}\<rparr>)"
proof -
  have one: "filter (\<lambda>e. name e = ''X'') (getEvents log0) = [ev_x 7]"
    by (simp add: log0_def getEvents_def ev_x_def ev_y_def)
  have fresh: "\<not> isEventAlreadyMatched log0 (event_num (ev_x 7))"
    by (simp add: log0_def isEventAlreadyMatched_def)
  have m: "markEventAsMatched log0 (event_num (ev_x 7)) = log0\<lparr>matchedEvents := {7}\<rparr>"
    by (simp add: markEventAsMatched_def log0_def ev_x_def)
  have second: "checkHasEvent env0 (log0\<lparr>matchedEvents := {7}\<rparr>) ''X'' None 15 [[], []] =
     (Inl (EventTimeout ''X'' None 15), log0\<lparr>matchedEvents := {7}\<rparr>)"
    by (simp add: check_no_data scan_no_data getEvents_def log0_def ev_x_def ev_y_def
        isEventAlreadyMatched_def addEvents_Nil)
  have "checkHasEvent env0 log0 ''X'' None 15 [[]] =
      (Inr (), markEventAsMatched log0 (event_num (ev_x 7)))"
    using C2_at_most_once[of "''X''" log0 "ev_x 7" 15 "[[]]" env0, THEN conjunct1] one fresh
    by simp
  with m second show ?thesis
    by simp
qed

section \<open>Properties of the scroll operations and of the resolution loop\<close>













lemma round_even_int: "round_even (of_int z) = z"
  by (simp add: round_even_def)

lemma exponent_above:
  assumes "2 ^ n \<le> \<bar>x\<bar>" "\<bar>x\<bar> < 2 ^ Suc n"
  shows "exponent x = int n"
proof -
  have "(1::real) \<le> 2 ^ n" by simp
  with assms(1) have one: "1 \<le> \<bar>x\<bar>" by linarith
  from assms(1) have lo: "2 ^ n \<le> \<lfloor>\<bar>x\<bar>\<rfloor>"
    by (simp add: le_floor_iff)
  from assms(2) have hi: "\<lfloor>\<bar>x\<bar>\<rfloor> < 2 ^ Suc n"
    by (simp add: floor_less_iff)
  have n1: "nat (int (Suc n)) = Suc n" "nat (int (Suc n)) - 1 = n" by simp_all
  from hi have "bitlen \<lfloor>\<bar>x\<bar>\<rfloor> \<le> int (Suc n)"
    by (simp only: bitlen_le_iff_power n1) simp
  moreover from lo have "int (Suc n) \<le> bitlen \<lfloor>\<bar>x\<bar>\<rfloor>"
    by (simp only: bitlen_ge_iff_power n1) simp
  ultimately have "bitlen \<lfloor>\<bar>x\<bar>\<rfloor> = int (Suc n)" by simp
  with one show ?thesis by (simp add: exponent_def)
qed

lemma exponent_below:
  assumes "1 / 2 ^ Suc n \<le> \<bar>x\<bar>" "\<bar>x\<bar> < 1 / 2 ^ n"
  shows "exponent x = - int (Suc n)"
proof -
  have "(0::real) < 1 / 2 ^ Suc n" by simp
  from this assms(1) have pos: "0 < \<bar>x\<bar>" by (rule less_le_trans)
  have "1 / (2::real) ^ n \<le> 1" by simp
  with assms(2) have small: "\<not> 1 \<le> \<bar>x\<bar>" by linarith
  from assms(2) pos have lo: "2 ^ n < 1 / \<bar>x\<bar>"
    by (simp add: field_simps)
  from assms(1) pos have hi: "1 / \<bar>x\<bar> \<le> 2 ^ Suc n"
    by (simp add: field_simps)
  define m where "m = nat \<lceil>1 / \<bar>x\<bar>\<rceil>"
  from hi have "\<lceil>1 / \<bar>x\<bar>\<rceil> \<le> 2 ^ Suc n"
    by (simp add: ceiling_le_iff)
  then have m_hi: "m \<le> 2 ^ Suc n"
    unfolding m_def by (simp add: nat_le_iff)
  from lo have "2 ^ n < \<lceil>1 / \<bar>x\<bar>\<rceil>"
    by (simp add: less_ceiling_iff)
  then have "int (2 ^ n) < \<lceil>1 / \<bar>x\<bar>\<rceil>" by simp
  then have "2 ^ n < m"
    unfolding m_def by (simp only: zless_nat_eq_int_zless)
  then have m_lo: "2 ^ Suc n < 2 * m" by simp
  from m_hi m_lo have "ceillog2 m = Suc n" by (rule ceillog2_eqI)
  with small show ?thesis by (simp add: exponent_def m_def)
qed

text \<open>The exponent is the integral part of the binary logarithm.\<close>

lemma exponent_log:
  assumes "x \<noteq> 0"
  shows "exponent x = \<lfloor>log 2 \<bar>x\<bar>\<rfloor>"
proof -
  define k where "k = \<lfloor>log 2 \<bar>x\<bar>\<rfloor>"
  from assms have pos: "0 < \<bar>x\<bar>" by simp
  have "of_int k \<le> log 2 \<bar>x\<bar>" "log 2 \<bar>x\<bar> < of_int k + 1"
    unfolding k_def by linarith+
  with pos have b: "2 powr of_int k \<le> \<bar>x\<bar>" "\<bar>x\<bar> < 2 powr (of_int k + 1)"
    by (simp_all add: le_log_iff log_less_iff)
  show ?thesis
  proof (cases "0 \<le> k")
    case True
    define n where "n = nat k"
    from True have n: "k = int n" by (simp add: n_def)
    have "2 powr of_int k = (2::real) ^ n" "2 powr (of_int k + 1) = (2::real) ^ Suc n"
      unfolding n by (simp_all add: powr_realpow powr_add)
    with b have "2 ^ n \<le> \<bar>x\<bar>" "\<bar>x\<bar> < 2 ^ Suc n" by simp_all
    then have "exponent x = int n" by (rule exponent_above)
    with n show ?thesis by (simp add: k_def)
  next
    case False
    define n where "n = nat (- k - 1)"
    from False have n: "k = - int (Suc n)" by (simp add: n_def)
    have "of_int k = - real (Suc n)" "of_int k + (1::real) = - real n"
      unfolding n by simp_all
    then have "2 powr of_int k = 1 / (2::real) ^ Suc n" "2 powr (of_int k + 1) = 1 / (2::real) ^ n"
      by (simp_all only: powr_minus powr_realpow zero_less_numeral divide_inverse mult_1)
    with b have "1 / 2 ^ Suc n \<le> \<bar>x\<bar>" "\<bar>x\<bar> < 1 / 2 ^ n" by simp_all
    then have "exponent x = - int (Suc n)" by (rule exponent_below)
    with n show ?thesis by (simp add: k_def)
  qed
qed

lemma fl_above_one:
  assumes "2 ^ n \<le> \<bar>x\<bar>" "\<bar>x\<bar> < 2 ^ Suc n" "n \<le> 52"
  shows "fl x = of_int (round_even (x * 2 ^ (52 - n))) / 2 ^ (52 - n)"
proof -
  have "(0::real) < 2 ^ n" by simp
  from this assms(1) have "0 < \<bar>x\<bar>" by (rule less_le_trans)
  then have nz: "x \<noteq> 0" by auto
  from assms(3) have "ulp x = 1 / 2 ^ (52 - n)"
    by (auto simp: ulp_def Let_def exponent_above[OF assms(1,2)] nat_diff_distrib)
  with nz show ?thesis by (simp add: fl_def)
qed

lemma fl_below_one:
  assumes "1 / 2 ^ Suc n \<le> \<bar>x\<bar>" "\<bar>x\<bar> < 1 / 2 ^ n"
  shows "fl x = of_int (round_even (x * 2 ^ (53 + n))) / 2 ^ (53 + n)"
proof -
  have "(0::real) < 1 / 2 ^ Suc n" by simp
  from this assms(1) have "0 < \<bar>x\<bar>" by (rule less_le_trans)
  then have nz: "x \<noteq> 0" by auto
  have "nat (52 + int (Suc n)) = 53 + n" by simp
  then have "ulp x = 1 / 2 ^ (53 + n)"
    by (simp add: ulp_def Let_def exponent_below[OF assms])
  with nz show ?thesis by (simp add: fl_def)
qed

lemma fl_exact:
  assumes "x \<in> \<int>" "\<bar>x\<bar> < 2 ^ 53"
  shows "fl x = x"
proof (cases "x = 0")
  case True
  then show ?thesis by (simp add: fl_def)
next
  case False
  from assms(1) obtain z where z: "x = of_int z" by (auto elim: Ints_cases)
  with False have zpos: "0 < \<bar>z\<bar>" by auto
  define n where "n = nat (bitlen \<bar>z\<bar> - 1)"
  from bitlen_bounds[OF zpos] have b: "2 ^ n \<le> \<bar>z\<bar>" "\<bar>z\<bar> < 2 ^ nat (bitlen \<bar>z\<bar>)"
    by (simp_all add: n_def)
  from zpos have "1 \<le> bitlen \<bar>z\<bar>" by (simp add: bitlen_ge_iff_power)
  then have s: "nat (bitlen \<bar>z\<bar>) = Suc n" by (simp add: n_def)
  from assms(2) z have "\<bar>z\<bar> < 2 ^ 53"
    by (metis of_int_abs of_int_less_numeral_power_cancel_iff)
  then have "bitlen \<bar>z\<bar> \<le> 53" by (simp add: bitlen_le_iff_power)
  then have n52: "n \<le> 52" by (simp add: n_def)
  from b(1) have lo: "2 ^ n \<le> \<bar>x\<bar>"
    unfolding z by (metis of_int_abs numeral_power_le_of_int_cancel_iff)
  from b(2) s have hi: "\<bar>x\<bar> < 2 ^ Suc n"
    unfolding z by (metis of_int_abs of_int_less_numeral_power_cancel_iff)
  have "x * 2 ^ (52 - n) = of_int (z * 2 ^ (52 - n))" by (simp add: z)
  then have "round_even (x * 2 ^ (52 - n)) = z * 2 ^ (52 - n)"
    by (simp only: round_even_int)
  with fl_above_one[OF lo hi n52] show ?thesis by (simp add: z)
qed

lemma scroll_coefficient: "DEFAULT_SCROLL_COEFFICIENT = 3 / 4"
  using fl_below_one[of 0 "75 / 100"]
  by (simp add: DEFAULT_SCROLL_COEFFICIENT_def round_even_def Let_def)

text \<open>
  The rounding shows in a coordinate where a product comes within its reach of a half:
  on a width of 375 with the capacity \<^verbatim>\<open>0.58\<close> the runtime computes
  \<^verbatim>\<open>Math.round(375 * 0.58)\<close> as 217, where the product of the reals is 217.5.
\<close>

lemma fl_058: "fl (58 / 100) = 5224175567749775 / 2 ^ 53"
  using fl_below_one[of 0 "58 / 100"] by (simp add: round_even_def Let_def)

lemma one_pixel:
  "Math_round (js_mul 375 (fl (58 / 100))) = 217" "Math_round (375 * (58 / 100)) = 218"
proof -
  have h: "fl (375 * (5224175567749775 / 2 ^ 53)) = 7652600929320959 / 2 ^ 45"
    using fl_above_one[of 7 "375 * (5224175567749775 / 2 ^ 53)"]
    by (simp add: round_even_def Let_def)
  show "Math_round (js_mul 375 (fl (58 / 100))) = 217"
    unfolding js_mul_def fl_058 h Math_round_def by simp
  show "Math_round (375 * (58 / 100)) = 218"
    by (simp add: Math_round_def)
qed

text \<open>
  Claim C8. A scroll capacity that is not in the interval from 0 (excluded) to 1
  (included), such as 0 or 1.5, is an error of configuration: \<^verbatim>\<open>performScroll\<close> and each
  of the eight scroll and swipe operations ends at once in the error of the capacity,
  and the world it leaves is the world it found, so no call has reached the driver and
  nothing was tried again.
\<close>

theorem C8_scroll_capacity:
  "\<not> (0 < scrollCapacity \<and> scrollCapacity \<le> 1) \<longrightarrow>
     performScroll drv platform element scrollCount scrollCapacity scrollDirection w =
       (Inl (ScrollCapacity scrollCapacity), w) \<and>
     scrollDown drv platform scrollCount scrollCapacity w = (Inl (ScrollCapacity scrollCapacity), w) \<and>
     scrollUp drv platform scrollCount scrollCapacity w = (Inl (ScrollCapacity scrollCapacity), w) \<and>
     scrollRight drv platform scrollCount scrollCapacity w = (Inl (ScrollCapacity scrollCapacity), w) \<and>
     scrollLeft drv platform scrollCount scrollCapacity w = (Inl (ScrollCapacity scrollCapacity), w) \<and>
     swipeDown drv platform element scrollCount scrollCapacity w =
       (Inl (ScrollCapacity scrollCapacity), w) \<and>
     swipeUp drv platform element scrollCount scrollCapacity w =
       (Inl (ScrollCapacity scrollCapacity), w) \<and>
     swipeRight drv platform element scrollCount scrollCapacity w =
       (Inl (ScrollCapacity scrollCapacity), w) \<and>
     swipeLeft drv platform element scrollCount scrollCapacity w =
       (Inl (ScrollCapacity scrollCapacity), w)"
  by (simp add: performScroll_def scrollDown_def scrollUp_def scrollRight_def scrollLeft_def
      swipeDown_def swipeUp_def swipeRight_def swipeLeft_def)

text \<open>
  The capacities 0 and 1.5 of the specification, on a scroll of the screen and on a swipe
  of an element; and, for comparison, the capacity 1, with which the scroll asks for the
  size of the window and performs its gesture.
\<close>

theorem C8_scroll_capacity_witness:
  "scrollDown drv0 ANDROID 1 0 world0 = (Inl (ScrollCapacity 0), world0) \<and>
   swipeLeft drv0 ANDROID (Some item_element) 1 (3 / 2) world0 = (Inl (ScrollCapacity (3 / 2)), world0) \<and>
   scrollDown drv0 ANDROID 1 1 world0 =
     (Inr (), world0\<lparr>device := 1,
        calls := [CallGetWindowSize,
                  CallPerformActions [PointerMove 0 540 1440, PointerDown, Pause 500,
                                      PointerMove 500 540 0, PointerUp],
                  CallReleaseActions]\<rparr>)"
proof -
  have ok: "scrollDown drv0 ANDROID 1 1 world0 =
     (Inr (), world0\<lparr>device := 1,
        calls := [CallGetWindowSize,
                  CallPerformActions [PointerMove 0 540 1440, PointerDown, Pause 500,
                                      PointerMove 500 540 0, PointerUp],
                  CallReleaseActions]\<rparr>)"
    by (simp add: scrollDown_def performScroll_def scroll_screen_def call_def drv0_def world0_def
        screen_gesture_def touchAndMoveVertical_def Math_round_def scroll_coefficient
        js_mul_def js_div_def fl_exact
        Let_def numeral_2_eq_2)
  from C8_scroll_capacity[of 0 drv0 ANDROID None 1 Down world0]
    C8_scroll_capacity[of "3 / 2" drv0 ANDROID "Some item_element" 1 Left world0] ok
  show ?thesis by simp
qed











end
